theory Spec2Isabelle
  imports Main "HOL-Library.Word" "HOL-Library.Signed_Division" "HOL-Library.Code_Target_Nat"
begin

unbundle bit_operations_syntax

section \<open>Machine types\<close>

text \<open>
  The component is built for the BCM2837 (AArch64, LP64): \<^verbatim>\<open>int\<close> has 32 bits,
  \<^verbatim>\<open>size_t\<close> and \<^verbatim>\<open>off_t\<close> have 64 bits, \<^verbatim>\<open>char\<close> is unsigned.
  Fixed-width values are words; an \<^verbatim>\<open>off_t\<close> is a 64-bit word that is compared
  and divided as a signed number. Return codes that only range over a few small
  constants (\<^verbatim>\<open>-1\<close>, \<^verbatim>\<open>0\<close>, \<^verbatim>\<open>1\<close>, a response byte) are HOL integers.
\<close>

type_synonym u8 = "8 word"
type_synonym u32 = "32 word"
type_synonym u64 = "64 word"
type_synonym off_t = "64 word"

text \<open>Undefined behaviour of the C program that the model makes a value of.\<close>

datatype fault = OutOfBounds

text \<open>A store \<^verbatim>\<open>xs[i] = v\<close> into a local array of fixed length.\<close>

definition store_at :: "'a list \<Rightarrow> nat \<Rightarrow> 'a \<Rightarrow> 'a list option" where
  "store_at xs i v = (if i < length xs then Some (xs[i := v]) else None)"

text \<open>Division of two \<^verbatim>\<open>off_t\<close> values: C truncates towards zero.\<close>

definition off_div :: "off_t \<Rightarrow> off_t \<Rightarrow> off_t" where
  "off_div a b = word_of_int (sint a sdiv sint b)"

section \<open>The bus behind \<^verbatim>\<open>spisd_hal_t\<close>\<close>

text \<open>
  The three function pointers of \<^verbatim>\<open>spisd_hal_t\<close> are the only way the driver touches
  the card. The driver is deterministic, so one run is fixed by the sequence of bytes
  the card shifts out: \<open>card n\<close> is the byte received on transfer number \<open>n\<close>,
  \<open>pos\<close> the number of transfers made so far. The remaining fields record what the
  driver did: the chip-select level, the bytes shifted out, the waits requested, and
  (\<open>issued\<close>) the index and argument of every command frame started.
\<close>

record bus =
  card :: "nat \<Rightarrow> u8"
  pos :: nat
  cs :: u8
  sent :: "u8 list"
  waited :: "u32 list"
  issued :: "(u32 \<times> u32) list"

definition spi_read_write :: "bus \<Rightarrow> u8 \<Rightarrow> u8 \<times> bus" where
  "spi_read_write spi data =
     (card spi (pos spi), spi\<lparr>pos := Suc (pos spi), sent := sent spi @ [data]\<rparr>)"

definition spi_cs :: "bus \<Rightarrow> u8 \<Rightarrow> bus" where
  "spi_cs spi v = spi\<lparr>cs := v\<rparr>"

definition spi_wait :: "bus \<Rightarrow> u32 \<Rightarrow> bus" where
  "spi_wait spi ms = spi\<lparr>waited := waited spi @ [ms]\<rparr>"

text \<open>Consecutive \<^verbatim>\<open>_spi_read_write\<close> calls whose received bytes are dropped.\<close>

definition spi_send :: "bus \<Rightarrow> u8 list \<Rightarrow> bus" where
  "spi_send spi bytes = foldl (\<lambda>s b. snd (spi_read_write s b)) spi bytes"

text \<open>Selecting the card and shifting out the six bytes of a command frame.\<close>

definition command_frame :: "bus \<Rightarrow> u32 \<Rightarrow> u32 \<Rightarrow> u8 list \<Rightarrow> bus" where
  "command_frame spi c arg bytes =
     spi_send ((spi_cs spi 1)\<lparr>issued := issued spi @ [(c, arg)]\<rparr>) bytes"

section \<open>Constants of \<^verbatim>\<open>SDCard.h\<close>\<close>

definition R1_IDLE_STATE :: int where "R1_IDLE_STATE = 1"
definition R1_ILLEGAL_COMMAND :: int where "R1_ILLEGAL_COMMAND = 4"

definition SDCARD_FAIL :: int where "SDCARD_FAIL = 0"
definition SDCARD_V1 :: int where "SDCARD_V1 = 1"
definition SDCARD_V2 :: int where "SDCARD_V2 = 2"

definition SD_COMMAND_TIMEOUT :: nat where "SD_COMMAND_TIMEOUT = 5000"

definition BLOCK_SIZE :: nat where "BLOCK_SIZE = 512"

section \<open>Protocol engine (\<^verbatim>\<open>SDFileSystem.c\<close>)\<close>

text \<open>\<^verbatim>\<open>_cmd\<close>: the response loop from iteration \<open>i\<close>, then the function.\<close>

function cmd_poll :: "nat \<Rightarrow> bus \<Rightarrow> int \<times> bus" where
  "cmd_poll i spi =
     (if i < SD_COMMAND_TIMEOUT then
        (case spi_read_write spi 0xFF of
           (response, spi1) \<Rightarrow>
             if response AND 0x80 = 0
             then (uint response, spi_send (spi_cs spi1 0) [0xFF])
             else cmd_poll (i + 1) spi1)
      else (- 1, spi_send (spi_cs spi 0) [0xFF]))"
  by pat_completeness auto
termination
  by (relation "measure (\<lambda>(i, spi). SD_COMMAND_TIMEOUT - i)") auto

definition cmd :: "bus \<Rightarrow> u32 \<Rightarrow> u32 \<Rightarrow> int \<times> bus" where
  "cmd spi c arg =
     cmd_poll 0 (command_frame spi c arg
       [ucast (0x40 OR c), ucast (drop_bit 24 arg), ucast (drop_bit 16 arg),
        ucast (drop_bit 8 arg), ucast arg, 0x95])"

text \<open>\<^verbatim>\<open>_cmdx\<close>: as \<^verbatim>\<open>_cmd\<close>, but a response leaves the card selected.\<close>

function cmdx_poll :: "nat \<Rightarrow> bus \<Rightarrow> int \<times> bus" where
  "cmdx_poll i spi =
     (if i < SD_COMMAND_TIMEOUT then
        (case spi_read_write spi 0xFF of
           (response, spi1) \<Rightarrow>
             if response AND 0x80 = 0
             then (uint response, spi1)
             else cmdx_poll (i + 1) spi1)
      else (- 1, spi_send (spi_cs spi 0) [0xFF]))"
  by pat_completeness auto
termination
  by (relation "measure (\<lambda>(i, spi). SD_COMMAND_TIMEOUT - i)") auto

definition cmdx :: "bus \<Rightarrow> u32 \<Rightarrow> u32 \<Rightarrow> int \<times> bus" where
  "cmdx spi c arg =
     cmdx_poll 0 (command_frame spi c arg
       [ucast (0x40 OR c), ucast (drop_bit 24 arg), ucast (drop_bit 16 arg),
        ucast (drop_bit 8 arg), ucast arg, 0x95])"

text \<open>\<^verbatim>\<open>_cmd58\<close>: after the response, four bytes of OCR are read and dropped.\<close>

function cmd58_poll :: "nat \<Rightarrow> bus \<Rightarrow> int \<times> bus" where
  "cmd58_poll i spi =
     (if i < SD_COMMAND_TIMEOUT then
        (case spi_read_write spi 0xFF of
           (response, spi1) \<Rightarrow>
             if response AND 0x80 = 0
             then (uint response,
                   spi_send (spi_cs (spi_send spi1 [0xFF, 0xFF, 0xFF, 0xFF]) 0) [0xFF])
             else cmd58_poll (i + 1) spi1)
      else (- 1, spi_send (spi_cs spi 0) [0xFF]))"
  by pat_completeness auto
termination
  by (relation "measure (\<lambda>(i, spi). SD_COMMAND_TIMEOUT - i)") auto

definition cmd58 :: "bus \<Rightarrow> int \<times> bus" where
  "cmd58 spi =
     cmd58_poll 0 (command_frame spi 58 0 [ucast (0x40 OR (58 :: u32)), 0, 0, 0, 0, 0x95])"

text \<open>
  \<^verbatim>\<open>_cmd8\<close>. The inner loop (\<open>cmd8_tail\<close>, with the number of iterations left)
  runs \<open>j\<close> from 1 to 4 and stores each byte at \<^verbatim>\<open>response[i]\<close>, \<open>i\<close> being the
  counter of the outer loop; \<^verbatim>\<open>response\<close> has five elements. The array is declared inside the outer loop without an
  initialiser; only element 0 is ever read, and it is written first, so the
  initial content (zeros here) is not observable.
\<close>

fun cmd8_tail :: "nat \<Rightarrow> nat \<Rightarrow> u8 list \<Rightarrow> bus \<Rightarrow> fault + u8 list \<times> bus" where
  "cmd8_tail i 0 response spi = Inr (response, spi)"
| "cmd8_tail i (Suc n) response spi =
     (case spi_read_write spi 0xFF of
        (r, spi1) \<Rightarrow>
          (case store_at response i r of
             None \<Rightarrow> Inl OutOfBounds
           | Some response1 \<Rightarrow> cmd8_tail i n response1 spi1))"

function cmd8_poll :: "nat \<Rightarrow> bus \<Rightarrow> fault + int \<times> bus" where
  "cmd8_poll i spi =
     (if i < SD_COMMAND_TIMEOUT * 1000 then
        (case spi_read_write spi 0xFF of
           (r0, spi1) \<Rightarrow>
             let response = (replicate 5 0)[0 := r0] in
             if response ! 0 AND 0x80 = 0
             then (case cmd8_tail i 4 response spi1 of
                     Inl f \<Rightarrow> Inl f
                   | Inr (response1, spi2) \<Rightarrow>
                       Inr (uint (response1 ! 0), spi_send (spi_cs spi2 0) [0xFF]))
             else cmd8_poll (i + 1) spi1)
      else Inr (- 1, spi_send (spi_cs spi 0) [0xFF]))"
  by pat_completeness auto
termination
  by (relation "measure (\<lambda>(i, spi). SD_COMMAND_TIMEOUT * 1000 - i)") auto

definition cmd8 :: "bus \<Rightarrow> fault + int \<times> bus" where
  "cmd8 spi =
     cmd8_poll 0 (command_frame spi 8 0x1AA [ucast (0x40 OR (8 :: u32)), 0x00, 0x00, 0x01, 0xAA, 0x87])"

section \<open>Block transfer primitive\<close>

text \<open>
  \<^verbatim>\<open>_read\<close>. The wait for the start token \<^verbatim>\<open>0xFE\<close> is a \<^verbatim>\<open>while\<close> loop
  without a counter: \<open>None\<close> is the loop that never ends. The bytes read are
  returned; the caller puts them into its buffer.
\<close>

partial_function (option) read_start :: "bus \<Rightarrow> bus option" where
  "read_start spi =
     (case spi_read_write spi 0xFF of
        (r, spi1) \<Rightarrow> if r \<noteq> 0xFE then read_start spi1 else Some spi1)"

declare read_start.simps [code]

fun read_bytes :: "nat \<Rightarrow> bus \<Rightarrow> u8 list \<times> bus" where
  "read_bytes 0 spi = ([], spi)"
| "read_bytes (Suc n) spi =
     (case spi_read_write spi 0xFF of
        (b, spi1) \<Rightarrow> (case read_bytes n spi1 of (bs, spi2) \<Rightarrow> (b # bs, spi2)))"

definition sd_read :: "bus \<Rightarrow> nat \<Rightarrow> (int \<times> u8 list \<times> bus) option" where
  "sd_read spi len =
     (case read_start (spi_cs spi 1) of
        None \<Rightarrow> None
      | Some spi1 \<Rightarrow>
          (case read_bytes len spi1 of
             (buffer, spi2) \<Rightarrow>
               Some (0, buffer, spi_send (spi_cs (spi_send spi2 [0xFF, 0xFF]) 0) [0xFF])))"

text \<open>
  \<^verbatim>\<open>_write\<close>. The wait for the end of the busy signal is again a \<^verbatim>\<open>while\<close>
  loop without a counter. \<open>buffer\<close> holds the \<open>length\<close> bytes to send.
\<close>

partial_function (option) write_busy :: "bus \<Rightarrow> bus option" where
  "write_busy spi =
     (case spi_read_write spi 0xFF of
        (r, spi1) \<Rightarrow> if r = 0 then write_busy spi1 else Some spi1)"

declare write_busy.simps [code]

definition sd_write :: "bus \<Rightarrow> u8 list \<Rightarrow> (int \<times> bus) option" where
  "sd_write spi buffer =
     (let spi1 = spi_send (spi_cs spi 1) ([0xFE] @ buffer @ [0xFF, 0xFF])
      in case spi_read_write spi1 0xFF of
           (token, spi2) \<Rightarrow>
             if token AND 0x1F \<noteq> 0x05
             then Some (1, spi_send (spi_cs spi2 0) [0xFF])
             else (case write_busy spi2 of
                     None \<Rightarrow> None
                   | Some spi3 \<Rightarrow> Some (0, spi_send (spi_cs spi3 0) [0xFF])))"

section \<open>Register decoder\<close>

text \<open>
  \<^verbatim>\<open>ext_bits\<close> (\<^verbatim>\<open>SDCard.h\<close>). All locals are \<^verbatim>\<open>uint32_t\<close>; a read of
  \<^verbatim>\<open>data[byte]\<close> outside the register is a fault.
\<close>

function ext_bits_loop :: "u8 list \<Rightarrow> u32 \<Rightarrow> u32 \<Rightarrow> u32 \<Rightarrow> u32 \<Rightarrow> fault + u32" where
  "ext_bits_loop data lsb sz i bits =
     (if i < sz then
        (let position = lsb + i;
             byte = 15 - drop_bit 3 position;
             bitn = position AND 0x7
         in if unat byte < length data then
              (let value = ucast (drop_bit (unat bitn) (data ! unat byte)) AND 1
               in ext_bits_loop data lsb sz (i + 1) (bits OR push_bit (unat i) value))
            else Inl OutOfBounds)
      else Inr bits)"
  by pat_completeness auto
termination
  by (relation "measure (\<lambda>(data, lsb, sz, i, bits). unat sz - unat i)") (simp, unat_arith)

declare ext_bits_loop.simps [simp del]

definition ext_bits :: "u8 list \<Rightarrow> int \<Rightarrow> int \<Rightarrow> fault + u32" where
  "ext_bits data msb lsb =
     ext_bits_loop data (word_of_int lsb) (word_of_int (1 + msb - lsb)) 0 0"

section \<open>Driver state\<close>

text \<open>
  The file-scope variables of \<^verbatim>\<open>SDFileSystem.c\<close> (\<^verbatim>\<open>_cdv\<close>, \<^verbatim>\<open>_is_initialized\<close>,
  \<^verbatim>\<open>_sectors\<close>), the fields of the component's \<^verbatim>\<open>ctx\<close> (\<^verbatim>\<open>init_ok\<close>, the storage
  dataport, and \<^verbatim>\<open>spi_sd_ctx.hal\<close>, of which only "is not \<^verbatim>\<open>NULL\<close>" is ever
  asked), and the bus. The last field is a log like those of the bus, not a
  variable of the program: the number of calls of \<^verbatim>\<open>disk_read\<close> and
  \<^verbatim>\<open>disk_write\<close> that have returned a value other than 0.
\<close>

record driver =
  hw :: bus
  hal_ptr :: bool
  cdv :: u32
  is_initialized :: int
  sectors :: off_t
  init_ok :: bool
  port_storage :: "u8 list"
  failures :: nat

section \<open>Bring-up\<close>

function initialise_card_v1_loop :: "nat \<Rightarrow> driver \<Rightarrow> int \<times> driver" where
  "initialise_card_v1_loop i d =
     (if i < SD_COMMAND_TIMEOUT then
        (case cmd (hw d) 55 0 of
           (r55, spi1) \<Rightarrow>
             (case cmd spi1 41 0 of
                (r41, spi2) \<Rightarrow>
                  if r41 = 0
                  then (SDCARD_V1, d\<lparr>hw := spi2, cdv := of_nat BLOCK_SIZE\<rparr>)
                  else initialise_card_v1_loop (i + 1) (d\<lparr>hw := spi2\<rparr>)))
      else (SDCARD_FAIL, d))"
  by pat_completeness auto
termination
  by (relation "measure (\<lambda>(i, d). SD_COMMAND_TIMEOUT - i)") auto

definition initialise_card_v1 :: "driver \<Rightarrow> int \<times> driver" where
  "initialise_card_v1 d = initialise_card_v1_loop 0 d"

function initialise_card_v2_loop :: "nat \<Rightarrow> driver \<Rightarrow> int \<times> driver" where
  "initialise_card_v2_loop i d =
     (if i < SD_COMMAND_TIMEOUT then
        (case cmd58 (spi_wait (hw d) 50) of
           (r58, spi1) \<Rightarrow>
             (case cmd spi1 55 0 of
                (r55, spi2) \<Rightarrow>
                  (case cmd spi2 41 0x40000000 of
                     (r41, spi3) \<Rightarrow>
                       if r41 = 0
                       then (SDCARD_V2, d\<lparr>hw := snd (cmd58 spi3), cdv := 1\<rparr>)
                       else initialise_card_v2_loop (i + 1) (d\<lparr>hw := spi3\<rparr>))))
      else (SDCARD_FAIL, d))"
  by pat_completeness auto
termination
  by (relation "measure (\<lambda>(i, d). SD_COMMAND_TIMEOUT - i)") auto

definition initialise_card_v2 :: "driver \<Rightarrow> int \<times> driver" where
  "initialise_card_v2 d = initialise_card_v2_loop 0 d"

text \<open>
  \<^verbatim>\<open>initialise_card\<close>. \<open>hal\<close> tells whether the \<^verbatim>\<open>hal\<close> argument is a non-null
  pointer; it is stored in \<^verbatim>\<open>spi->hal\<close> before anything else happens. The state
  \<open>reset_done d hal\<close> is the one in which the sixth \<^verbatim>\<open>CMD0\<close> is sent.
\<close>

definition reset_done :: "driver \<Rightarrow> bool \<Rightarrow> driver" where
  "reset_done d hal =
     (let spi = spi_send (spi_cs (hw d) 0) (replicate 16 0xFF);
          spi = snd (cmd spi 0 0);
          spi = snd (cmd spi 0 0);
          spi = snd (cmd spi 0 0);
          spi = snd (cmd spi 0 0);
          spi = snd (cmd spi 0 0)
      in d\<lparr>hw := spi, hal_ptr := hal\<rparr>)"

definition initialise_card :: "driver \<Rightarrow> bool \<Rightarrow> fault + int \<times> driver" where
  "initialise_card d hal =
     (let d1 = reset_done d hal in
      case cmd (hw d1) 0 0 of
        (r0, spi1) \<Rightarrow>
          if r0 \<noteq> R1_IDLE_STATE then Inr (SDCARD_FAIL, d1\<lparr>hw := spi1\<rparr>)
          else (case cmd8 spi1 of
                  Inl f \<Rightarrow> Inl f
                | Inr (r, spi2) \<Rightarrow>
                    if r = R1_IDLE_STATE then Inr (initialise_card_v2 (d1\<lparr>hw := spi2\<rparr>))
                    else if r = R1_IDLE_STATE OR R1_ILLEGAL_COMMAND
                    then Inr (initialise_card_v1 (d1\<lparr>hw := spi2\<rparr>))
                    else Inr (SDCARD_FAIL, d1\<lparr>hw := spi2\<rparr>)))"

section \<open>Capacity from the CSD register\<close>

text \<open>
  \<^verbatim>\<open>_sd_sectors\<close>. \<^verbatim>\<open>c_size\<close>, \<^verbatim>\<open>mult\<close>, \<^verbatim>\<open>blocknr\<close>, \<^verbatim>\<open>capacity\<close> are
  \<^verbatim>\<open>uint32_t\<close>, \<^verbatim>\<open>hc_c_size\<close> and \<^verbatim>\<open>blocks\<close> are \<^verbatim>\<open>off_t\<close>.
\<close>

definition sd_sectors :: "driver \<Rightarrow> (fault + off_t \<times> driver) option" where
  "sd_sectors d =
     (case cmdx (hw d) 9 0 of
        (r9, spi1) \<Rightarrow>
          if r9 \<noteq> 0 then Some (Inr (0, d\<lparr>hw := spi1\<rparr>))
          else (case sd_read spi1 16 of
                  None \<Rightarrow> None
                | Some (rr, csd, spi2) \<Rightarrow>
                    if rr \<noteq> 0 then Some (Inr (0, d\<lparr>hw := spi2\<rparr>))
                    else (case ext_bits csd 127 126 of
                            Inl f \<Rightarrow> Some (Inl f)
                          | Inr csd_structure \<Rightarrow>
                              if csd_structure = 0 then
                                (case (ext_bits csd 73 62, ext_bits csd 49 47, ext_bits csd 83 80) of
                                   (Inr c_size, Inr c_size_mult, Inr read_bl_len) \<Rightarrow>
                                     let block_len = push_bit (unat read_bl_len) (1 :: u32);
                                         mult = push_bit (unat (c_size_mult + 2)) (1 :: u32);
                                         blocknr = (c_size + 1) * mult;
                                         capacity = blocknr * block_len;
                                         blocks = ucast (capacity div of_nat BLOCK_SIZE)
                                     in Some (Inr (blocks, d\<lparr>hw := spi2, cdv := of_nat BLOCK_SIZE\<rparr>))
                                 | _ \<Rightarrow> Some (Inl OutOfBounds))
                              else if csd_structure = 1 then
                                (case ext_bits csd 69 48 of
                                   Inl f \<Rightarrow> Some (Inl f)
                                 | Inr hc \<Rightarrow>
                                     let hc_c_size = ucast hc :: off_t;
                                         blocks = (hc_c_size + 1) * 1024
                                     in Some (Inr (blocks, d\<lparr>hw := spi2, cdv := 1\<rparr>)))
                              else Some (Inr (0, d\<lparr>hw := spi2\<rparr>)))))"

text \<open>\<^verbatim>\<open>disk_capacity\<close>: the same register read; the result is an \<^verbatim>\<open>off_t\<close>.\<close>

definition disk_capacity :: "driver \<Rightarrow> (fault + off_t \<times> driver) option" where
  "disk_capacity d =
     (case cmdx (hw d) 9 0 of
        (r9, spi1) \<Rightarrow>
          if r9 \<noteq> 0 then Some (Inr (0, d\<lparr>hw := spi1\<rparr>))
          else (case sd_read spi1 16 of
                  None \<Rightarrow> None
                | Some (rr, csd, spi2) \<Rightarrow>
                    if rr \<noteq> 0 then Some (Inr (0, d\<lparr>hw := spi2\<rparr>))
                    else (case ext_bits csd 127 126 of
                            Inl f \<Rightarrow> Some (Inl f)
                          | Inr csd_structure \<Rightarrow>
                              if csd_structure = 0 then
                                (case (ext_bits csd 73 62, ext_bits csd 49 47, ext_bits csd 83 80) of
                                   (Inr c_size, Inr c_size_mult, Inr read_bl_len) \<Rightarrow>
                                     let block_len = push_bit (unat read_bl_len) (1 :: u32);
                                         mult = push_bit (unat (c_size_mult + 2)) (1 :: u32);
                                         blocknr = (c_size + 1) * mult;
                                         capacity = blocknr * block_len
                                     in Some (Inr (ucast capacity, d\<lparr>hw := spi2\<rparr>))
                                 | _ \<Rightarrow> Some (Inl OutOfBounds))
                              else if csd_structure = 1 then
                                Some (Inr (sectors d * of_nat BLOCK_SIZE, d\<lparr>hw := spi2\<rparr>))
                              else Some (Inr (0, d\<lparr>hw := spi2\<rparr>)))))"

section \<open>Device facade (\<^verbatim>\<open>SDFileSystem.c\<close>)\<close>

definition disk_initialize :: "driver \<Rightarrow> bool \<Rightarrow> (fault + int \<times> driver) option" where
  "disk_initialize d hal =
     (case initialise_card d hal of
        Inl f \<Rightarrow> Some (Inl f)
      | Inr (r, d1) \<Rightarrow>
          let d2 = d1\<lparr>is_initialized := r\<rparr> in
          if is_initialized d2 = 0 then Some (Inr (1, d2))
          else (case sd_sectors d2 of
                  None \<Rightarrow> None
                | Some (Inl f) \<Rightarrow> Some (Inl f)
                | Some (Inr (n, d3)) \<Rightarrow>
                    let d4 = d3\<lparr>sectors := n\<rparr> in
                    (case cmd (hw d4) 16 (of_nat BLOCK_SIZE) of
                       (r16, spi1) \<Rightarrow>
                         if r16 \<noteq> 0 then Some (Inr (1, d4\<lparr>hw := spi1\<rparr>))
                         else Some (Inr (0, d4\<lparr>hw := spi1\<rparr>)))))"

text \<open>
  \<^verbatim>\<open>disk_write\<close>, \<^verbatim>\<open>disk_read\<close>. The loop counter \<^verbatim>\<open>b\<close> is a \<^verbatim>\<open>uint32_t\<close>
  compared with the \<^verbatim>\<open>off_t\<close> bound \<open>block_number + count\<close>, so the loop need not
  end; the result of \<^verbatim>\<open>_write\<close> and \<^verbatim>\<open>_read\<close> is dropped. \<open>at\<close> is the distance
  the \<^verbatim>\<open>buffer\<close> pointer has advanced.
\<close>

partial_function (option) disk_write_loop ::
  "driver \<Rightarrow> u8 list \<Rightarrow> nat \<Rightarrow> off_t \<Rightarrow> u32 \<Rightarrow> (fault + int \<times> driver) option" where
  "disk_write_loop d buffer at bound b =
     (if ucast b <s bound then
        (case cmd (hw d) 24 (b * cdv d) of
           (r, spi1) \<Rightarrow>
             if r \<noteq> 0 then Some (Inr (1, d\<lparr>hw := spi1, failures := failures d + 1\<rparr>))
             else if length buffer < at + BLOCK_SIZE then Some (Inl OutOfBounds)
             else (case sd_write spi1 (take BLOCK_SIZE (drop at buffer)) of
                     None \<Rightarrow> None
                   | Some (w, spi2) \<Rightarrow>
                       disk_write_loop (d\<lparr>hw := spi2\<rparr>) buffer (at + BLOCK_SIZE) bound (b + 1)))
      else Some (Inr (0, d)))"

declare disk_write_loop.simps [code]

definition disk_write :: "driver \<Rightarrow> u8 list \<Rightarrow> off_t \<Rightarrow> off_t \<Rightarrow> (fault + int \<times> driver) option" where
  "disk_write d buffer block_number count =
     (if is_initialized d = 0 then Some (Inr (- 1, d\<lparr>failures := failures d + 1\<rparr>))
      else disk_write_loop d buffer 0 (block_number + count) (ucast block_number))"

partial_function (option) disk_read_loop ::
  "driver \<Rightarrow> u8 list \<Rightarrow> nat \<Rightarrow> off_t \<Rightarrow> u32 \<Rightarrow> (fault + int \<times> u8 list \<times> driver) option" where
  "disk_read_loop d buffer at bound b =
     (if ucast b <s bound then
        (case cmd (hw d) 17 (b * cdv d) of
           (r, spi1) \<Rightarrow>
             if r \<noteq> 0 then Some (Inr (1, buffer, d\<lparr>hw := spi1, failures := failures d + 1\<rparr>))
             else (case sd_read spi1 BLOCK_SIZE of
                     None \<Rightarrow> None
                   | Some (rr, bytes, spi2) \<Rightarrow>
                       if length buffer < at + BLOCK_SIZE then Some (Inl OutOfBounds)
                       else disk_read_loop (d\<lparr>hw := spi2\<rparr>)
                              (take at buffer @ bytes @ drop (at + BLOCK_SIZE) buffer)
                              (at + BLOCK_SIZE) bound (b + 1)))
      else Some (Inr (0, buffer, d)))"

declare disk_read_loop.simps [code]

definition disk_read ::
  "driver \<Rightarrow> u8 list \<Rightarrow> off_t \<Rightarrow> off_t \<Rightarrow> (fault + int \<times> u8 list \<times> driver) option" where
  "disk_read d buffer block_number count =
     (if is_initialized d = 0 then Some (Inr (- 1, buffer, d\<lparr>failures := failures d + 1\<rparr>))
      else disk_read_loop d buffer 0 (block_number + count) (ucast block_number))"

definition disk_status :: "driver \<Rightarrow> int" where
  "disk_status d = (if is_initialized d \<noteq> 0 then 0 else 1)"

definition disk_block_size :: off_t where
  "disk_block_size = of_nat BLOCK_SIZE"

definition disk_sectors :: "driver \<Rightarrow> off_t" where
  "disk_sectors d = sectors d"

section \<open>The storage component\<close>

datatype OS_Error =
    OS_SUCCESS
  | OS_ERROR_INVALID_STATE
  | OS_ERROR_INVALID_PARAMETER
  | OS_ERROR_OUT_OF_BOUNDS
  | OS_ERROR_GENERIC

text \<open>
  \<^verbatim>\<open>post_init\<close>. \<open>spi_begin\<close> is what \<^verbatim>\<open>bcm2837_spi_begin\<close> returned. The
  \<^verbatim>\<open>hal\<close> handed to \<^verbatim>\<open>disk_initialize\<close> is the address of a static object. The
  settings of the SPI controller (bit order, mode, clock divider) are not card
  traffic and have no counterpart here.
\<close>

definition post_init :: "driver \<Rightarrow> int \<Rightarrow> (fault + driver) option" where
  "post_init d spi_begin =
     (if spi_begin = 0 then Some (Inr d)
      else (case disk_initialize d True of
              None \<Rightarrow> None
            | Some (Inl f) \<Rightarrow> Some (Inl f)
            | Some (Inr (r, d1)) \<Rightarrow>
                if \<not> hal_ptr d1 then Some (Inr d1)
                else Some (Inr (d1\<lparr>init_ok := True\<rparr>))))"

text \<open>\<^verbatim>\<open>isValidMSDArea\<close>; \<^verbatim>\<open>&&\<close> evaluates its right operand only if the left holds.\<close>

definition isValidMSDArea :: "driver \<Rightarrow> off_t \<Rightarrow> off_t \<Rightarrow> (fault + bool \<times> driver) option" where
  "isValidMSDArea d offset sz =
     (let e = offset + sz in
      if 0 \<le>s offset \<and> 0 \<le>s sz \<and> offset \<le>s e
      then (case disk_capacity d of
              None \<Rightarrow> None
            | Some (Inl f) \<Rightarrow> Some (Inl f)
            | Some (Inr (capacity, d1)) \<Rightarrow> Some (Inr (e \<le>s capacity, d1)))
      else Some (Inr (False, d)))"

text \<open>
  \<^verbatim>\<open>memcpy(dst + at, src, n)\<close> and \<^verbatim>\<open>memset(dst + at, v, n)\<close> on buffers held as
  lists. In the calls below \<open>at + n\<close> is within \<open>dst\<close> and \<open>n\<close> within \<open>src\<close>
  whenever the sector number has not been cut to 32 bits, that is for offsets
  below \<open>2 ^ 41\<close>.
\<close>

definition memcpy :: "u8 list \<Rightarrow> nat \<Rightarrow> u8 list \<Rightarrow> nat \<Rightarrow> u8 list" where
  "memcpy dst at src n = take at dst @ take n src @ drop (at + n) dst"

definition memset :: "u8 list \<Rightarrow> nat \<Rightarrow> u8 \<Rightarrow> nat \<Rightarrow> u8 list" where
  "memset dst at v n = take at dst @ replicate n v @ drop (at + n) dst"

text \<open>
  The number of bytes of the request that lie in its first block:
  \<^verbatim>\<open>size <= (disk_block_size() - (offset - sector * disk_block_size())) ? size : ...\<close>
  with \<^verbatim>\<open>size\<close> a \<^verbatim>\<open>size_t\<close> (read, write: unsigned comparison) or an \<^verbatim>\<open>off_t\<close>
  (erase: signed comparison).
\<close>

definition first_skew :: "off_t \<Rightarrow> u32 \<Rightarrow> off_t" where
  "first_skew offset sector = offset - ucast sector * disk_block_size"

definition nbr_of_bytes_u :: "off_t \<Rightarrow> u32 \<Rightarrow> u64 \<Rightarrow> u64" where
  "nbr_of_bytes_u offset sector sz =
     (if sz \<le> disk_block_size - first_skew offset sector then sz
      else disk_block_size - first_skew offset sector)"


text \<open>
  \<^verbatim>\<open>storage_rpc_write\<close>. The \<^verbatim>\<open>while\<close> loop first: its result is the \<^verbatim>\<open>ret\<close> of
  the last \<^verbatim>\<open>disk_write\<close> and the locals \<^verbatim>\<open>size\<close>, \<^verbatim>\<open>sector\<close>, \<^verbatim>\<open>bytesWritten\<close>
  (an \<^verbatim>\<open>int\<close>), the distance \<open>buf\<close> that \<^verbatim>\<open>buffer\<close> has advanced, and \<^verbatim>\<open>block\<close>.
  A result is the status, the value left in \<^verbatim>\<open>*written\<close>, and the state.
\<close>

function write_rest ::
  "driver \<Rightarrow> u64 \<Rightarrow> u32 \<Rightarrow> u32 \<Rightarrow> nat \<Rightarrow> u8 list \<Rightarrow>
   (fault + int \<times> u64 \<times> u32 \<times> u32 \<times> nat \<times> u8 list \<times> driver) option" where
  "write_rest d sz sector bytesWritten buf block =
     (if disk_block_size < sz then
        (let block1 = memcpy block 0 (drop buf (port_storage d)) BLOCK_SIZE in
         case disk_write d block1 (ucast (sector + 1)) 1 of
           None \<Rightarrow> None
         | Some (Inl f) \<Rightarrow> Some (Inl f)
         | Some (Inr (ret, d1)) \<Rightarrow>
             if ret \<noteq> 0 then Some (Inr (ret, sz, sector + 1, bytesWritten, buf, block1, d1))
             else write_rest d1 (sz - disk_block_size) (sector + 1)
                    (bytesWritten + of_nat BLOCK_SIZE) (buf + BLOCK_SIZE) block1)
      else Some (Inr (0, sz, sector, bytesWritten, buf, block, d)))"
  by pat_completeness auto
termination
  by (relation "measure (\<lambda>(d, sz, sector, bytesWritten, buf, block). unat sz)")
     (simp, simp add: disk_block_size_def BLOCK_SIZE_def, unat_arith)

definition write_last ::
  "driver \<Rightarrow> u64 \<Rightarrow> u32 \<Rightarrow> u32 \<Rightarrow> nat \<Rightarrow> u8 list \<Rightarrow> (fault + OS_Error \<times> u64 \<times> driver) option" where
  "write_last d sz sector bytesWritten buf block =
     (if 0 < sz then
        (case disk_read d block (ucast (sector + 1)) 1 of
           None \<Rightarrow> None
         | Some (Inl f) \<Rightarrow> Some (Inl f)
         | Some (Inr (ret, block1, d1)) \<Rightarrow>
             if ret \<noteq> 0 then Some (Inr (OS_ERROR_GENERIC, 0, d1))
             else (let block2 = memcpy block1 0 (drop buf (port_storage d1)) (unat sz) in
                   case disk_write d1 block2 (ucast (sector + 1)) 1 of
                     None \<Rightarrow> None
                   | Some (Inl f) \<Rightarrow> Some (Inl f)
                   | Some (Inr (ret2, d2)) \<Rightarrow>
                       if ret2 \<noteq> 0 then Some (Inr (OS_ERROR_GENERIC, 0, d2))
                       else Some (Inr (OS_SUCCESS, scast (bytesWritten + ucast sz), d2))))
      else Some (Inr (OS_SUCCESS, scast bytesWritten, d)))"

definition storage_rpc_write ::
  "driver \<Rightarrow> off_t \<Rightarrow> u64 \<Rightarrow> (fault + OS_Error \<times> u64 \<times> driver) option" where
  "storage_rpc_write d offset sz =
     (if \<not> init_ok d then Some (Inr (OS_ERROR_INVALID_STATE, 0, d))
      else if of_nat (length (port_storage d)) < sz
      then Some (Inr (OS_ERROR_INVALID_PARAMETER, 0, d))
      else (case isValidMSDArea d offset sz of
              None \<Rightarrow> None
            | Some (Inl f) \<Rightarrow> Some (Inl f)
            | Some (Inr (valid, d1)) \<Rightarrow>
                if \<not> valid then Some (Inr (OS_ERROR_OUT_OF_BOUNDS, 0, d1))
                else if 0 < sz then
                  (let block = replicate BLOCK_SIZE 0;
                       sector = ucast (off_div offset disk_block_size) :: u32
                   in case disk_read d1 block (ucast sector) 1 of
                        None \<Rightarrow> None
                      | Some (Inl f) \<Rightarrow> Some (Inl f)
                      | Some (Inr (ret, block1, d2)) \<Rightarrow>
                          if ret \<noteq> 0 then Some (Inr (OS_ERROR_GENERIC, 0, d2))
                          else (let n = nbr_of_bytes_u offset sector sz;
                                    block2 = memcpy block1 (unat (first_skew offset sector))
                                               (port_storage d2) (unat n)
                                in case disk_write d2 block2 (ucast sector) 1 of
                                     None \<Rightarrow> None
                                   | Some (Inl f) \<Rightarrow> Some (Inl f)
                                   | Some (Inr (ret2, d3)) \<Rightarrow>
                                       if ret2 \<noteq> 0 then Some (Inr (OS_ERROR_GENERIC, 0, d3))
                                       else (case write_rest d3 (sz - n) sector (ucast n) (unat n) block2 of
                                               None \<Rightarrow> None
                                             | Some (Inl f) \<Rightarrow> Some (Inl f)
                                             | Some (Inr (ret3, sz1, sector1, bytesWritten, buf, block3, d4)) \<Rightarrow>
                                                 if ret3 \<noteq> 0 then Some (Inr (OS_ERROR_GENERIC, 0, d4))
                                                 else write_last d4 sz1 sector1 bytesWritten buf block3)))
                else Some (Inr (OS_SUCCESS, 0, d1))))"

text \<open>
  \<^verbatim>\<open>storage_rpc_read\<close>, in the same way; \<^verbatim>\<open>bytesRead\<close> is an \<^verbatim>\<open>int\<close> and is
  also the place in the dataport where the next block goes.
\<close>

function read_rest ::
  "driver \<Rightarrow> u64 \<Rightarrow> u32 \<Rightarrow> u32 \<Rightarrow> u8 list \<Rightarrow>
   (fault + int \<times> u64 \<times> u32 \<times> u32 \<times> u8 list \<times> driver) option" where
  "read_rest d sz sector bytesRead block =
     (if disk_block_size < sz then
        (case disk_read d block (ucast (sector + 1)) 1 of
           None \<Rightarrow> None
         | Some (Inl f) \<Rightarrow> Some (Inl f)
         | Some (Inr (ret, block1, d1)) \<Rightarrow>
             if ret \<noteq> 0 then Some (Inr (ret, sz, sector + 1, bytesRead, block1, d1))
             else read_rest
                    (d1\<lparr>port_storage := memcpy (port_storage d1) (unat bytesRead) block1 BLOCK_SIZE\<rparr>)
                    (sz - disk_block_size) (sector + 1) (bytesRead + of_nat BLOCK_SIZE) block1)
      else Some (Inr (0, sz, sector, bytesRead, block, d)))"
  by pat_completeness auto
termination
  by (relation "measure (\<lambda>(d, sz, sector, bytesRead, block). unat sz)")
     (simp, simp add: disk_block_size_def BLOCK_SIZE_def, unat_arith)

definition read_last ::
  "driver \<Rightarrow> u64 \<Rightarrow> u32 \<Rightarrow> u32 \<Rightarrow> u8 list \<Rightarrow> (fault + OS_Error \<times> u64 \<times> driver) option" where
  "read_last d sz sector bytesRead block =
     (if 0 < sz then
        (case disk_read d block (ucast (sector + 1)) 1 of
           None \<Rightarrow> None
         | Some (Inl f) \<Rightarrow> Some (Inl f)
         | Some (Inr (ret, block1, d1)) \<Rightarrow>
             if ret \<noteq> 0 then Some (Inr (OS_ERROR_GENERIC, 0, d1))
             else Some (Inr (OS_SUCCESS, scast (bytesRead + ucast sz),
                    d1\<lparr>port_storage := memcpy (port_storage d1) (unat bytesRead) block1 (unat sz)\<rparr>)))
      else Some (Inr (OS_SUCCESS, scast bytesRead, d)))"

definition storage_rpc_read ::
  "driver \<Rightarrow> off_t \<Rightarrow> u64 \<Rightarrow> (fault + OS_Error \<times> u64 \<times> driver) option" where
  "storage_rpc_read d offset sz =
     (if \<not> init_ok d then Some (Inr (OS_ERROR_INVALID_STATE, 0, d))
      else if of_nat (length (port_storage d)) < sz
      then Some (Inr (OS_ERROR_INVALID_PARAMETER, 0, d))
      else (case isValidMSDArea d offset sz of
              None \<Rightarrow> None
            | Some (Inl f) \<Rightarrow> Some (Inl f)
            | Some (Inr (valid, d1)) \<Rightarrow>
                if \<not> valid then Some (Inr (OS_ERROR_OUT_OF_BOUNDS, 0, d1))
                else if 0 < sz then
                  (let block = replicate BLOCK_SIZE 0;
                       sector = ucast (off_div offset disk_block_size) :: u32
                   in case disk_read d1 block (ucast sector) 1 of
                        None \<Rightarrow> None
                      | Some (Inl f) \<Rightarrow> Some (Inl f)
                      | Some (Inr (ret, block1, d2)) \<Rightarrow>
                          if ret \<noteq> 0 then Some (Inr (OS_ERROR_GENERIC, 0, d2))
                          else (let n = nbr_of_bytes_u offset sector sz;
                                    d3 = d2\<lparr>port_storage :=
                                           memcpy (port_storage d2) 0
                                             (drop (unat (first_skew offset sector)) block1) (unat n)\<rparr>
                                in case read_rest d3 (sz - n) sector (ucast n) block1 of
                                     None \<Rightarrow> None
                                   | Some (Inl f) \<Rightarrow> Some (Inl f)
                                   | Some (Inr (ret3, sz1, sector1, bytesRead, block3, d4)) \<Rightarrow>
                                       if ret3 \<noteq> 0 then Some (Inr (OS_ERROR_GENERIC, 0, d4))
                                       else read_last d4 sz1 sector1 bytesRead block3))
                else Some (Inr (OS_SUCCESS, 0, d1))))"

text \<open>
  \<^verbatim>\<open>storage_rpc_erase\<close>. Here \<^verbatim>\<open>size\<close> is an \<^verbatim>\<open>off_t\<close>: it is compared with the
  dataport size as an unsigned number and with \<^verbatim>\<open>0\<close> and the block size as a
  signed one; \<^verbatim>\<open>bytesErased\<close> is a \<^verbatim>\<open>size_t\<close>.
\<close>

function erase_rest ::
  "driver \<Rightarrow> off_t \<Rightarrow> u32 \<Rightarrow> u64 \<Rightarrow> u8 list \<Rightarrow>
   (fault + int \<times> off_t \<times> u32 \<times> u64 \<times> u8 list \<times> driver) option" where
  "erase_rest d sz sector bytesErased block =
     (if disk_block_size <s sz then
        (let block1 = memset block 0 0xFF BLOCK_SIZE in
         case disk_write d block1 (ucast (sector + 1)) 1 of
           None \<Rightarrow> None
         | Some (Inl f) \<Rightarrow> Some (Inl f)
         | Some (Inr (ret, d1)) \<Rightarrow>
             if ret \<noteq> 0 then Some (Inr (ret, sz, sector + 1, bytesErased, block1, d1))
             else erase_rest d1 (sz - disk_block_size) (sector + 1)
                    (bytesErased + of_nat BLOCK_SIZE) block1)
      else Some (Inr (0, sz, sector, bytesErased, block, d)))"
  by pat_completeness auto
termination
proof (relation "measure (\<lambda>(d, sz, sector, bytesErased, block). unat sz)")
  fix sz :: off_t
  assume "disk_block_size <s sz"
  then have "512 < sint sz"
    by (simp add: word_sless_alt disk_block_size_def BLOCK_SIZE_def)
  moreover have "- (2 ^ 63) \<le> uint sz"
    by (rule order_trans [of _ 0]) simp_all
  then have "sint sz \<le> uint sz"
    by (simp add: sint_uint signed_take_bit_int_less_eq_self_iff)
  ultimately have "512 < uint sz" by linarith
  then have "512 < sz" by (simp add: word_less_def)
  then have "unat (sz - 512) < unat sz" by unat_arith
  then show "\<And>d sector bytesErased block x xa.
       ((xa, sz - disk_block_size, sector + 1, bytesErased + word_of_nat BLOCK_SIZE, x),
        (d, sz, sector, bytesErased, block)) \<in> measure (\<lambda>(d, sz, sector, bytesErased, block). unat sz)"
    by (simp add: disk_block_size_def BLOCK_SIZE_def)
qed simp



text \<open>\<^verbatim>\<open>storage_rpc_getSize\<close> and \<^verbatim>\<open>storage_rpc_getState\<close>; \<open>None\<close> in the second
  component is an out-parameter that was not written.\<close>

definition storage_rpc_getSize :: "driver \<Rightarrow> (fault + OS_Error \<times> off_t option \<times> driver) option" where
  "storage_rpc_getSize d =
     (if \<not> init_ok d then Some (Inr (OS_ERROR_INVALID_STATE, None, d))
      else (case disk_capacity d of
              None \<Rightarrow> None
            | Some (Inl f) \<Rightarrow> Some (Inl f)
            | Some (Inr (capacity, d1)) \<Rightarrow> Some (Inr (OS_SUCCESS, Some capacity, d1))))"

definition storage_rpc_getState :: "driver \<Rightarrow> OS_Error \<times> u32 option" where
  "storage_rpc_getState d =
     (if \<not> init_ok d then (OS_ERROR_INVALID_STATE, None)
      else (OS_SUCCESS, Some (word_of_int (disk_status d))))"

section \<open>The reference for the register decoder\<close>

text \<open>
  The register as one 128-bit number, byte 0 first (most significant), and the
  slice of a number between two bit positions.
\<close>

definition csd_value :: "u8 list \<Rightarrow> nat" where
  "csd_value data = foldl (\<lambda>acc b. acc * 256 + unat b) 0 data"

definition bit_slice :: "nat \<Rightarrow> nat \<Rightarrow> nat \<Rightarrow> nat" where
  "bit_slice v msb lsb = (v div 2 ^ lsb) mod 2 ^ (1 + msb - lsb)"

text \<open>
  The capacity computation as the specification words it (section 4.3), on
  unbounded numbers: the capacity in bytes of a version-0 register, and the sector
  count by the structure field.
\<close>

definition spec_capacity_v0 :: "u8 list \<Rightarrow> nat" where
  "spec_capacity_v0 csd =
     (let cSize = bit_slice (csd_value csd) 73 62;
          cSizeMult = bit_slice (csd_value csd) 49 47;
          readBlockLen = bit_slice (csd_value csd) 83 80;
          blockLen = 2 ^ readBlockLen;
          mult = 2 ^ (cSizeMult + 2);
          blockCount = (cSize + 1) * mult
      in blockCount * blockLen)"

definition spec_sectors :: "u8 list \<Rightarrow> nat" where
  "spec_sectors csd =
     (if bit_slice (csd_value csd) 127 126 = 0 then spec_capacity_v0 csd div 512
      else if bit_slice (csd_value csd) 127 126 = 1
      then (bit_slice (csd_value csd) 69 48 + 1) * 1024
      else 0)"

section \<open>Observations\<close>

text \<open>
  What a run shows from outside: the value returned (\<open>result\<close>); the status and
  the byte count of a storage request (\<open>reply\<close>); the number of bus transfers
  made when it returns (\<open>transfers\<close>); the number of failed block operations
  logged when it returns (\<open>failed_blocks\<close>); the dataport afterwards; and the register
  that a \<^verbatim>\<open>CMD9\<close> exchange started in state \<open>d\<close> captures, if the read returns.
\<close>

definition result :: "(fault + 'a \<times> 'b) option \<Rightarrow> (fault + 'a) option" where
  "result r = map_option (map_sum id fst) r"

definition reply :: "(fault + 'e \<times> 'n \<times> driver) option \<Rightarrow> (fault + 'e \<times> 'n) option" where
  "reply r = map_option (map_sum id (\<lambda>(e, n, d). (e, n))) r"

definition transfers :: "(fault + 'e \<times> 'n \<times> driver) option \<Rightarrow> nat option" where
  "transfers r = (case r of Some (Inr (e, n, d)) \<Rightarrow> Some (pos (hw d)) | _ \<Rightarrow> None)"



definition register_read :: "driver \<Rightarrow> u8 list option" where
  "register_read d = map_option (fst \<circ> snd) (sd_read (snd (cmdx (hw d) 9 0)) 16)"


section \<open>Cards for concrete runs\<close>

text \<open>
  A card that answers with the bytes of a list, one per transfer, and with
  \<^verbatim>\<open>0xFF\<close> (the idle level of the data line) afterwards; the bus before the first
  transfer; the state of the component before \<^verbatim>\<open>post_init\<close>, with a dataport of
  \<open>n\<close> bytes.
\<close>

definition script :: "u8 list \<Rightarrow> nat \<Rightarrow> u8" where
  "script bytes n = (if n < length bytes then bytes ! n else 0xFF)"

definition fresh_bus :: "(nat \<Rightarrow> u8) \<Rightarrow> bus" where
  "fresh_bus c = \<lparr>card = c, pos = 0, cs = 0, sent = [], waited = [], issued = []\<rparr>"

definition power_on :: "(nat \<Rightarrow> u8) \<Rightarrow> nat \<Rightarrow> driver" where
  "power_on c n =
     \<lparr>hw = fresh_bus c, hal_ptr = False, cdv = 0, is_initialized = 0, sectors = 0,
      init_ok = False, port_storage = replicate n 0, failures = 0\<rparr>"

text \<open>
  A card that never answers (the data line stays high); a card that answers every
  poll with "illegal command"; a card that accepts one data block (the token
  \<^verbatim>\<open>0x05\<close> on transfer 515) and holds the line low otherwise; a card that answers
  the first command with \<^verbatim>\<open>0x00\<close> and then stays silent.
\<close>

definition silent_card :: "nat \<Rightarrow> u8" where
  "silent_card n = 0xFF"

definition rejecting_card :: "nat \<Rightarrow> u8" where
  "rejecting_card n = 0x04"

definition busy_card :: "nat \<Rightarrow> u8" where
  "busy_card n = (if n = 515 then 0x05 else 0x00)"

definition mute_card :: "nat \<Rightarrow> u8" where
  "mute_card n = (if n = 6 then 0x00 else 0xFF)"

text \<open>
  A card that answers \<^verbatim>\<open>CMD9\<close> with \<^verbatim>\<open>0x00\<close> on the first poll and sends the
  start token and the register \<open>csd\<close> right after it. Two registers: a
  standard-capacity one with \<open>C_SIZE = 4095\<close>, \<open>C_SIZE_MULT = 7\<close>,
  \<open>READ_BL_LEN = 11\<close> (4 GiB), and a high-capacity one with \<open>C_SIZE = 0x1000\<close>.
\<close>

definition csd_card :: "u8 list \<Rightarrow> nat \<Rightarrow> u8" where
  "csd_card csd = script (replicate 6 0xFF @ [0x00, 0xFE] @ csd)"

definition sdsc_4g_csd :: "u8 list" where
  "sdsc_4g_csd = [0x00, 0, 0, 0, 0, 0x0B, 0x03, 0xFF, 0xC0, 0x03, 0x80, 0, 0, 0, 0, 0]"

definition sdhc_csd :: "u8 list" where
  "sdhc_csd = [0x40, 0, 0, 0, 0, 0, 0, 0x00, 0x10, 0x00, 0, 0, 0, 0, 0, 0]"

text \<open>
  A standard-capacity register worth 4096 bytes (\<open>C_SIZE = 1\<close>, \<open>C_SIZE_MULT = 0\<close>,
  \<open>READ_BL_LEN = 9\<close>).
\<close>

definition small_csd :: "u8 list" where
  "small_csd = [0x00, 0, 0, 0, 0, 0x09, 0, 0, 0x40, 0, 0, 0, 0, 0, 0, 0]"

text \<open>
  A version-1 card that answers at once: \<^verbatim>\<open>0x01\<close> to each \<^verbatim>\<open>CMD0\<close> and to
  \<^verbatim>\<open>CMD55\<close>, \<^verbatim>\<open>0x05\<close> to \<^verbatim>\<open>CMD8\<close> on the second poll, \<^verbatim>\<open>0x00\<close> to
  \<^verbatim>\<open>ACMD41\<close>.
\<close>

definition v1_card :: "nat \<Rightarrow> u8" where
  "v1_card n =
     (if n \<in> {22, 30, 38, 46, 54, 62, 83} then 0x01
      else if n = 71 then 0x05
      else if n = 91 then 0x00
      else 0xFF)"

text \<open>
  Two more version-1 cards. The first answers \<^verbatim>\<open>CMD8\<close> with \<^verbatim>\<open>0x05\<close> on the first
  poll after the frame (transfer 70) and leaves the line idle afterwards; the
  second answers it on the sixth poll (transfer 75).
\<close>

definition prompt_v1_card :: "nat \<Rightarrow> u8" where
  "prompt_v1_card n =
     (if n \<in> {22, 30, 38, 46, 54, 62} then 0x01
      else if n = 70 then 0x05
      else 0xFF)"

definition late_v1_card :: "nat \<Rightarrow> u8" where
  "late_v1_card n =
     (if n \<in> {22, 30, 38, 46, 54, 62} then 0x01
      else if n = 75 then 0x05
      else 0xFF)"

text \<open>
  The card \<open>v1_card\<close>, which goes on to send the register \<open>small_csd\<close> on \<^verbatim>\<open>CMD9\<close>
  and then rejects \<^verbatim>\<open>CMD16\<close> (transfer 126).
\<close>

definition cmd16_rejecting_card :: "nat \<Rightarrow> u8" where
  "cmd16_rejecting_card n =
     (if n = 99 then 0x00
      else if n = 100 then 0xFE
      else if 101 \<le> n \<and> n < 117 then small_csd ! (n - 101)
      else if n = 126 then 0x04
      else v1_card n)"


text \<open>
  \<open>booted c n\<close> is the component as \<^verbatim>\<open>post_init\<close> leaves it on card \<open>c\<close> with a
  dataport of \<open>n\<close> bytes, \<^verbatim>\<open>bcm2837_spi_begin\<close> having returned 1.
\<close>

definition booted :: "(nat \<Rightarrow> u8) \<Rightarrow> nat \<Rightarrow> driver" where
  "booted c n = (case post_init (power_on c n) 1 of Some (Inr d) \<Rightarrow> d | _ \<Rightarrow> power_on c n)"

section \<open>Register decoder: bit extraction\<close>

lemma bit_csd_value:
  "bit (csd_value data) p \<longleftrightarrow> p div 8 < length data \<and> bit (data ! (length data - 1 - p div 8)) (p mod 8)"
proof (induction data arbitrary: p rule: rev_induct)
  case Nil
  then show ?case by (simp add: csd_value_def)
next
  case (snoc x xs)
  have "unat x < 2 ^ 8"
    using unsigned_less [of x, where 'a = nat] by simp
  then have "csd_value (xs @ [x]) = push_bit 8 (csd_value xs) + take_bit 8 (unat x)"
    by (simp add: csd_value_def push_bit_eq_mult take_bit_nat_eq_self)
  also have "\<dots> = push_bit 8 (csd_value xs) OR take_bit 8 (unat x)"
    by (rule disjunctive_add) (auto simp: bit_push_bit_iff bit_take_bit_iff)
  finally have v: "csd_value (xs @ [x]) = push_bit 8 (csd_value xs) OR take_bit 8 (unat x)" .
  show ?case
  proof (cases "p < 8")
    case True
    then show ?thesis
      by (simp add: v bit_or_iff bit_push_bit_iff bit_take_bit_iff bit_unsigned_iff)
  next
    case False
    then have p: "p = 8 + (p - 8)" by simp
    have d: "p div 8 = Suc ((p - 8) div 8)" and m: "p mod 8 = (p - 8) mod 8"
      using False by (simp_all add: le_div_geq le_mod_geq)
    show ?thesis using False
      by (auto simp add: v bit_or_iff bit_push_bit_iff bit_take_bit_iff snoc.IH d m nth_append)
  qed
qed

lemma bit_bit_slice:
  "bit (bit_slice v msb lsb) n \<longleftrightarrow> n < 1 + msb - lsb \<and> bit v (lsb + n)"
  by (simp add: bit_slice_def flip: drop_bit_eq_div take_bit_eq_mod)
     (auto simp add: bit_take_bit_iff bit_drop_bit_eq)


lemma ext_bits_loop_bits:
  assumes "length data = 16" "unat lsb + unat sz \<le> 128" "unat sz \<le> 32"
  shows "\<exists>r. ext_bits_loop data lsb sz i bits = Inr r \<and>
           (\<forall>n. bit r n \<longleftrightarrow> bit bits n \<or>
              (unat i \<le> n \<and> n < unat sz \<and>
               bit (data ! (15 - (unat lsb + n) div 8)) ((unat lsb + n) mod 8)))"
  using assms
proof (induction data lsb sz i bits rule: ext_bits_loop.induct)
  case (1 data lsb sz i bits)
  show ?case
  proof (cases "i < sz")
    case False
    then have "unat sz \<le> unat i" by (simp add: word_less_nat_alt)
    with False show ?thesis
      by (subst ext_bits_loop.simps) auto
  next
    case True
    then have isz: "unat i < unat sz" by (simp add: word_less_nat_alt)
    define p where "p = unat lsb + unat i"
    have p128: "p < 128" using isz "1.prems" by (simp add: p_def)
    have up: "unat (lsb + i) = p"
      using p128 by (simp add: p_def unat_word_ariths)
    have ud: "unat (drop_bit 3 (lsb + i)) = p div 8"
      by (simp add: drop_bit_eq_div unat_div up)
    then have "drop_bit 3 (lsb + i) \<le> 15"
      using p128 by (simp add: word_le_nat_alt)
    then have ub: "unat (15 - drop_bit 3 (lsb + i)) = 15 - p div 8"
      by (simp add: unat_sub ud)
    have "(lsb + i) AND 7 = take_bit 3 (lsb + i)"
      by (simp add: take_bit_eq_mask mask_eq_exp_minus_1)
    then have un: "unat ((lsb + i) AND 7) = p mod 8"
      by (simp add: take_bit_eq_mod unat_mod up)
    have ui: "unat (i + 1) = Suc (unat i)"
      using True by unat_arith
    have i32: "unat i < 32"
      using isz "1.prems" by simp
    define v :: u32 where
      "v = ucast (drop_bit (p mod 8) (data ! (15 - p div 8))) AND 1"
    have bv: "bit (push_bit (unat i) v) n \<longleftrightarrow>
                n = unat i \<and> bit (data ! (15 - p div 8)) (p mod 8)" for n
      using i32 by (auto simp add: v_def bit_push_bit_iff bit_and_iff bit_1_iff
          bit_ucast_iff bit_drop_bit_eq bit_exp_iff)
    have inb: "unat (15 - drop_bit 3 (lsb + i)) < length data"
      using "1.prems" by (simp add: ub)
    from "1.IH" [OF True refl refl refl inb refl "1.prems"]
    obtain r where r: "ext_bits_loop data lsb sz (i + 1) (bits OR push_bit (unat i) v) = Inr r"
      and rb: "\<And>n. bit r n \<longleftrightarrow> bit (bits OR push_bit (unat i) v) n \<or>
              (unat (i + 1) \<le> n \<and> n < unat sz \<and>
               bit (data ! (15 - (unat lsb + n) div 8)) ((unat lsb + n) mod 8))"
      unfolding v_def ub un by blast
    have "ext_bits_loop data lsb sz i bits = Inr r"
      using True inb r by (subst ext_bits_loop.simps) (simp add: Let_def ub un v_def)
    moreover have "bit r n \<longleftrightarrow> bit bits n \<or>
              (unat i \<le> n \<and> n < unat sz \<and>
               bit (data ! (15 - (unat lsb + n) div 8)) ((unat lsb + n) mod 8))" for n
    proof -
      have "unat i \<le> n \<longleftrightarrow> n = unat i \<or> Suc (unat i) \<le> n" by auto
      then show ?thesis
        unfolding rb bit_or_iff bv ui p_def using isz by blast
    qed
    ultimately show ?thesis by blast
  qed
qed


lemma ext_bits_slice:
  assumes "length data = 16" "0 \<le> lsb" "lsb \<le> msb" "msb < 128" "msb - lsb < 32"
  shows "ext_bits data msb lsb = Inr (of_nat (bit_slice (csd_value data) (nat msb) (nat lsb)))"
proof -
  have "uint (word_of_int lsb :: u32) = lsb"
    by (rule word_of_int_inverse [OF refl]) (use assms in simp_all)
  then have ul: "unat (word_of_int lsb :: u32) = nat lsb"
    by (simp add: unat_eq_nat_uint)
  have "uint (word_of_int (1 + msb - lsb) :: u32) = 1 + msb - lsb"
    by (rule word_of_int_inverse [OF refl]) (use assms in simp_all)
  then have us: "unat (word_of_int (1 + msb - lsb) :: u32) = nat (1 + msb - lsb)"
    by (simp add: unat_eq_nat_uint)
  have pre: "unat (word_of_int lsb :: u32) + unat (word_of_int (1 + msb - lsb) :: u32) \<le> 128"
    "unat (word_of_int (1 + msb - lsb) :: u32) \<le> 32"
    unfolding ul us using assms by simp_all
  from ext_bits_loop_bits [OF assms(1) pre, of 0 0]
  obtain r where r: "ext_bits data msb lsb = Inr r"
    and rb: "\<And>n. bit r n \<longleftrightarrow> n < nat (1 + msb - lsb) \<and>
               bit (data ! (15 - (nat lsb + n) div 8)) ((nat lsb + n) mod 8)"
    unfolding ext_bits_def ul us by auto
  have "r = of_nat (bit_slice (csd_value data) (nat msb) (nat lsb))"
  proof (rule bit_word_eqI)
    fix n assume "n < LENGTH(32)"
    then show "bit r n \<longleftrightarrow> bit (word_of_nat (bit_slice (csd_value data) (nat msb) (nat lsb)) :: u32) n"
      using assms
      by (auto simp add: rb bit_of_nat_iff bit_bit_slice bit_csd_value nat_diff_distrib)
  qed
  with r show ?thesis by simp
qed

text \<open>
  Claim C9. For a 16-byte register and a bit range \<open>lsb \<le> msb\<close> inside it that is at
  most 32 bits wide, \<^verbatim>\<open>ext_bits\<close> returns the slice \<open>[msb:lsb]\<close> of the register
  read as one 128-bit number whose bit \<open>p\<close> is bit \<open>p mod 8\<close> of byte \<open>15 - p div 8\<close>
  (lemma \<open>bit_csd_value\<close>), bit 0 of the result being bit \<open>lsb\<close>.
\<close>

theorem ext_bits_reference:
  assumes "length data = 16" "0 \<le> lsb" "lsb \<le> msb" "msb < 128" "msb - lsb < 32"
  shows "ext_bits data msb lsb = Inr (of_nat (bit_slice (csd_value data) (nat msb) (nat lsb)))"
  using assms by (rule ext_bits_slice)

theorem ext_bits_reference_witness:
  "ext_bits [0x40, 0, 0, 0, 0, 0, 0, 0x00, 0x10, 0x00, 0, 0, 0, 0, 0, 0] 69 48 =
     Inr (of_nat (bit_slice (csd_value [0x40, 0, 0, 0, 0, 0, 0, 0x00, 0x10, 0x00, 0, 0, 0, 0, 0, 0]) 69 48))
   \<and> bit_slice (csd_value [0x40, 0, 0, 0, 0, 0, 0, 0x00, 0x10, 0x00, 0, 0, 0, 0, 0, 0]) 69 48 = 4096"
  using ext_bits_reference [of "[0x40, 0, 0, 0, 0, 0, 0, 0x00, 0x10, 0x00, 0, 0, 0, 0, 0, 0]" 48 69]
  by (simp add: csd_value_def bit_slice_def)

section \<open>Protocol engine: what a command leaves on the bus\<close>

declare cmd_poll.simps [simp del] cmdx_poll.simps [simp del] cmd58_poll.simps [simp del]
  cmd8_poll.simps [simp del] initialise_card_v1_loop.simps [simp del]
  initialise_card_v2_loop.simps [simp del] read_rest.simps [simp del]
  write_rest.simps [simp del] erase_rest.simps [simp del]

lemma spi_send_eq:
  "spi_send spi bs = spi\<lparr>pos := pos spi + length bs, sent := sent spi @ bs\<rparr>"
  by (induction bs arbitrary: spi) (simp_all add: spi_send_def spi_read_write_def)

lemma command_frame_eq:
  "command_frame spi c arg bs =
     spi\<lparr>pos := pos spi + length bs, cs := 1, sent := sent spi @ bs,
         issued := issued spi @ [(c, arg)]\<rparr>"
  by (simp add: command_frame_def spi_send_eq spi_cs_def)

lemma cmd_poll_keeps:
  "card (snd (cmd_poll i spi)) = card spi \<and> issued (snd (cmd_poll i spi)) = issued spi
   \<and> waited (snd (cmd_poll i spi)) = waited spi"
proof (induction i spi rule: cmd_poll.induct)
  case (1 i spi)
  show ?case
  proof (cases "i < SD_COMMAND_TIMEOUT")
    case False
    then show ?thesis
      by (subst (1 2 3) cmd_poll.simps) (simp add: spi_send_eq spi_cs_def)
  next
    case True
    show ?thesis
    proof (cases "card spi (pos spi) AND 0x80 = 0")
      case hit: True
      with True show ?thesis
        by (subst (1 2 3) cmd_poll.simps) (simp add: spi_read_write_def spi_send_eq spi_cs_def)
    next
      case miss: False
      then have "fst (spi_read_write spi 0xFF) AND 0x80 \<noteq> 0"
        by (simp add: spi_read_write_def)
      from "1.IH" [OF True prod.collapse this] True miss
      show ?thesis
        by (subst (1 2 3) cmd_poll.simps) (simp add: spi_read_write_def)
    qed
  qed
qed


lemma cmd_keeps:
  "card (snd (cmd spi c arg)) = card spi"
  "issued (snd (cmd spi c arg)) = issued spi @ [(c, arg)]"
  "waited (snd (cmd spi c arg)) = waited spi"
  by (simp_all add: cmd_def cmd_poll_keeps command_frame_eq)

lemma cmd8_poll_skip:
  assumes "\<forall>k<n. card spi (pos spi + k) AND 0x80 \<noteq> 0" "j + n \<le> SD_COMMAND_TIMEOUT * 1000"
  shows "cmd8_poll j spi =
         cmd8_poll (j + n) (spi\<lparr>pos := pos spi + n, sent := sent spi @ replicate n 0xFF\<rparr>)"
  using assms
proof (induction n arbitrary: j spi)
  case 0
  then show ?case by simp
next
  case (Suc n)
  let ?spi1 = "spi\<lparr>pos := Suc (pos spi), sent := sent spi @ [0xFF]\<rparr>"
  have hi: "card spi (pos spi) AND 0x80 \<noteq> 0"
    using Suc.prems(1) [rule_format, of 0] by simp
  have rest: "\<forall>k<n. card ?spi1 (pos ?spi1 + k) AND 0x80 \<noteq> 0"
  proof (intro allI impI)
    fix k assume "k < n"
    then show "card ?spi1 (pos ?spi1 + k) AND 0x80 \<noteq> 0"
      using Suc.prems(1) [rule_format, of "Suc k"] by simp
  qed
  have "cmd8_poll j spi = cmd8_poll (Suc j) ?spi1"
    using hi Suc.prems(2) by (subst cmd8_poll.simps) (simp add: spi_read_write_def)
  also have "\<dots> = cmd8_poll (Suc j + n) (?spi1\<lparr>pos := pos ?spi1 + n, sent := sent ?spi1 @ replicate n 0xFF\<rparr>)"
    using Suc.prems(2) by (intro Suc.IH rest) simp
  finally show ?case by (simp add: replicate_app_Cons_same)
qed


lemma cmd8_tail_eq:
  assumes "length response = 5"
  shows "cmd8_tail i n response spi =
     (if n = 0 then Inr (response, spi)
      else if 5 \<le> i then Inl OutOfBounds
      else Inr (response[i := card spi (pos spi + n - 1)],
                spi\<lparr>pos := pos spi + n, sent := sent spi @ replicate n 0xFF\<rparr>))"
  using assms
proof (induction n arbitrary: response spi)
  case 0
  then show ?case by simp
next
  case (Suc n)
  show ?case
  proof (cases "5 \<le> i")
    case True
    with Suc.prems show ?thesis
      by (simp add: spi_read_write_def store_at_def)
  next
    case False
    let ?spi1 = "spi\<lparr>pos := Suc (pos spi), sent := sent spi @ [0xFF]\<rparr>"
    let ?r1 = "response[i := card spi (pos spi)]"
    have "cmd8_tail i (Suc n) response spi = cmd8_tail i n ?r1 ?spi1"
      using False Suc.prems by (simp add: spi_read_write_def store_at_def)
    also have "\<dots> = (if n = 0 then Inr (?r1, ?spi1)
         else Inr (?r1[i := card ?spi1 (pos ?spi1 + n - 1)],
                ?spi1\<lparr>pos := pos ?spi1 + n, sent := sent ?spi1 @ replicate n 0xFF\<rparr>))"
      using False Suc.prems by (subst Suc.IH) simp_all
    finally show ?thesis
      using False by (simp add: replicate_app_Cons_same)
  qed
qed

lemma cmd8_poll_hit:
  assumes "i < SD_COMMAND_TIMEOUT * 1000" "card spi (pos spi) AND 0x80 = 0"
  shows "cmd8_poll i spi =
     (if 5 \<le> i then Inl OutOfBounds
      else Inr (uint (if i = 0 then card spi (pos spi + 4) else card spi (pos spi)),
                spi\<lparr>pos := pos spi + 6, cs := 0,
                    sent := sent spi @ 0xFF # replicate 4 0xFF @ [0xFF]\<rparr>))"
  using assms
  by (subst cmd8_poll.simps)
     (simp add: spi_read_write_def cmd8_tail_eq spi_send_eq spi_cs_def Let_def add.commute)

text \<open>
  Claim C10. In \<^verbatim>\<open>_cmd8\<close> the trailing bytes are stored at \<^verbatim>\<open>response[i]\<close>, \<open>i\<close>
  being the polling iteration, into a buffer of five elements: when the first
  byte with the high bit clear arrives at iteration \<open>i \<ge> 5\<close> (the polls before it
  all having the high bit set), the store is outside the buffer.
\<close>

theorem cmd8_store_out_of_bounds:
  assumes "5 \<le> i" "i < SD_COMMAND_TIMEOUT * 1000"
    and "\<forall>k<i. card spi (pos spi + 6 + k) AND 0x80 \<noteq> 0"
    and "card spi (pos spi + 6 + i) AND 0x80 = 0"
  shows "cmd8 spi = Inl OutOfBounds"
proof -
  let ?f = "command_frame spi 8 0x1AA [ucast (0x40 OR (8 :: u32)), 0x00, 0x00, 0x01, 0xAA, 0x87]"
  have f: "card ?f = card spi" "pos ?f = pos spi + 6"
    by (simp_all add: command_frame_eq)
  have quiet: "\<forall>k<i. card ?f (pos ?f + k) AND 0x80 \<noteq> 0"
    unfolding f using assms(3) .
  have hit: "card ?f (pos ?f + i) AND 0x80 = 0"
    unfolding f using assms(4) .
  have "cmd8 spi = cmd8_poll 0 ?f"
    by (simp add: cmd8_def)
  also have "\<dots> = cmd8_poll (0 + i) (?f\<lparr>pos := pos ?f + i, sent := sent ?f @ replicate i 0xFF\<rparr>)"
    using quiet assms(2) by (intro cmd8_poll_skip) simp_all
  also have "\<dots> = Inl OutOfBounds"
    using assms(1,2) hit by (subst cmd8_poll_hit) simp_all
  finally show ?thesis .
qed

theorem cmd8_store_out_of_bounds_witness:
  "cmd8 (fresh_bus (\<lambda>n. if n = 11 then 0x01 else 0xFF)) = Inl OutOfBounds"
  using cmd8_store_out_of_bounds [of 5 "fresh_bus (\<lambda>n. if n = 11 then 0x01 else 0xFF)"]
  by (simp add: fresh_bus_def SD_COMMAND_TIMEOUT_def)


lemma cmd8_first:
  assumes "card spi (pos spi + 6) AND 0x80 = 0"
  shows "cmd8 spi = Inr (uint (card spi (pos spi + 10)),
           spi\<lparr>pos := pos spi + 12, cs := 0,
               sent := sent spi @ [0x48, 0x00, 0x00, 0x01, 0xAA, 0x87, 0xFF, 0xFF, 0xFF, 0xFF, 0xFF, 0xFF],
               issued := issued spi @ [(8, 0x1AA)]\<rparr>)"
proof -
  let ?f = "command_frame spi 8 0x1AA [ucast (0x40 OR (8 :: u32)), 0x00, 0x00, 0x01, 0xAA, 0x87]"
  have f: "card ?f = card spi" "pos ?f = pos spi + 6"
    by (simp_all add: command_frame_eq)
  have hit: "card ?f (pos ?f) AND 0x80 = 0"
    unfolding f using assms .
  have "cmd8 spi = cmd8_poll 0 ?f"
    by (simp add: cmd8_def)
  then show ?thesis
    using hit
    apply (simp add: cmd8_poll_hit SD_COMMAND_TIMEOUT_def)
    apply (simp add: command_frame_eq)
    apply (simp add: numeral_eq_Suc)
    done
qed

lemma cmd8_second:
  assumes "card spi (pos spi + 6) AND 0x80 \<noteq> 0" "card spi (pos spi + 7) AND 0x80 = 0"
  shows "cmd8 spi = Inr (uint (card spi (pos spi + 7)),
           spi\<lparr>pos := pos spi + 13, cs := 0,
               sent := sent spi @ [0x48, 0x00, 0x00, 0x01, 0xAA, 0x87, 0xFF, 0xFF, 0xFF, 0xFF, 0xFF, 0xFF, 0xFF],
               issued := issued spi @ [(8, 0x1AA)]\<rparr>)"
proof -
  let ?f = "command_frame spi 8 0x1AA [ucast (0x40 OR (8 :: u32)), 0x00, 0x00, 0x01, 0xAA, 0x87]"
  have f: "card ?f = card spi" "pos ?f = pos spi + 6"
    by (simp_all add: command_frame_eq)
  have quiet: "\<forall>k<1. card ?f (pos ?f + k) AND 0x80 \<noteq> 0"
    unfolding f using assms(1) by simp
  have hit: "card ?f (pos ?f + 1) AND 0x80 = 0"
    unfolding f using assms(2) by (simp add: ac_simps)
  have "cmd8 spi = cmd8_poll 0 ?f"
    by (simp add: cmd8_def)
  also have "\<dots> = cmd8_poll (0 + 1) (?f\<lparr>pos := pos ?f + 1, sent := sent ?f @ replicate 1 0xFF\<rparr>)"
    using quiet by (intro cmd8_poll_skip) (simp_all add: SD_COMMAND_TIMEOUT_def)
  finally show ?thesis
    using hit
    apply (simp add: cmd8_poll_hit SD_COMMAND_TIMEOUT_def)
    apply (simp add: command_frame_eq)
    apply (simp add: numeral_eq_Suc)
    done
qed

text \<open>
  Claim C3 asks \<^verbatim>\<open>_cmd8\<close> to return the leading status byte whatever the polling
  iteration it arrives on. When it arrives on the first poll, \<open>i = 0\<close> and the four
  trailing bytes are stored over \<^verbatim>\<open>response[0]\<close>: the function returns the last
  of them. Two cards that both answer \<^verbatim>\<open>0x01\<close> and differ in the last trailing
  byte only.
\<close>

theorem cmd8_returns_trailing_byte:
  "map_sum id fst (cmd8 (fresh_bus (script
      [0xFF, 0xFF, 0xFF, 0xFF, 0xFF, 0xFF, 0x01, 0x00, 0x00, 0x01, 0xAA]))) = Inr 0xAA
   \<and> map_sum id fst (cmd8 (fresh_bus (script
      [0xFF, 0xFF, 0xFF, 0xFF, 0xFF, 0xFF, 0x01, 0x00, 0x00, 0x01, 0x55]))) = Inr 0x55"
  by (simp add: cmd8_first fresh_bus_def script_def)


lemma cmd_first:
  assumes "card spi (pos spi + 6) AND 0x80 = 0"
  shows "cmd spi c arg = (uint (card spi (pos spi + 6)),
           spi\<lparr>pos := pos spi + 8, cs := 0,
               sent := sent spi @ [ucast (0x40 OR c), ucast (drop_bit 24 arg), ucast (drop_bit 16 arg),
                        ucast (drop_bit 8 arg), ucast arg, 0x95, 0xFF, 0xFF],
               issued := issued spi @ [(c, arg)]\<rparr>)"
  using assms
  apply (simp add: cmd_def)
  apply (subst cmd_poll.simps)
  apply (simp add: command_frame_eq spi_read_write_def spi_send_eq spi_cs_def SD_COMMAND_TIMEOUT_def)
  apply (simp add: numeral_eq_Suc)
  done

lemma cmdx_first:
  assumes "card spi (pos spi + 6) AND 0x80 = 0"
  shows "cmdx spi c arg = (uint (card spi (pos spi + 6)),
           spi\<lparr>pos := pos spi + 7, cs := 1,
               sent := sent spi @ [ucast (0x40 OR c), ucast (drop_bit 24 arg), ucast (drop_bit 16 arg),
                        ucast (drop_bit 8 arg), ucast arg, 0x95, 0xFF],
               issued := issued spi @ [(c, arg)]\<rparr>)"
  using assms
  apply (simp add: cmdx_def)
  apply (subst cmdx_poll.simps)
  apply (simp add: command_frame_eq spi_read_write_def spi_send_eq spi_cs_def SD_COMMAND_TIMEOUT_def)
  apply (simp add: numeral_eq_Suc)
  done

lemma cmd8_tail_keeps:
  "cmd8_tail i n response spi = Inr (response', spi') \<Longrightarrow>
     card spi' = card spi \<and> issued spi' = issued spi \<and> waited spi' = waited spi"
  by (induction n arbitrary: response spi)
     (auto simp add: spi_read_write_def split: option.splits)

lemma cmd8_poll_keeps:
  "cmd8_poll i spi = Inr (r, spi') \<Longrightarrow>
     card spi' = card spi \<and> issued spi' = issued spi \<and> waited spi' = waited spi"
proof (induction i spi rule: cmd8_poll.induct)
  case (1 i spi)
  show ?case
  proof (cases "i < SD_COMMAND_TIMEOUT * 1000")
    case False
    with "1.prems" show ?thesis
      by (subst (asm) cmd8_poll.simps) (auto simp add: spi_send_eq spi_cs_def)
  next
    case True
    let ?spi1 = "snd (spi_read_write spi 0xFF)"
    show ?thesis
    proof (cases "card spi (pos spi) AND 0x80 = 0")
      case hit: True
      with True "1.prems" show ?thesis
        by (subst (asm) cmd8_poll.simps)
           (auto simp add: spi_read_write_def spi_send_eq spi_cs_def Let_def
              split: sum.splits dest!: cmd8_tail_keeps)
    next
      case miss: False
      then have m: "(replicate 5 0)[0 := fst (spi_read_write spi 0xFF)] ! 0 AND 0x80 \<noteq> 0"
        by (simp add: spi_read_write_def)
      have "cmd8_poll (i + 1) ?spi1 = Inr (r, spi')"
        using "1.prems" True miss
        by (subst (asm) cmd8_poll.simps) (simp add: spi_read_write_def)
      from "1.IH" [OF True prod.collapse refl m this]
      show ?thesis by (simp add: spi_read_write_def)
    qed
  qed
qed

lemma cmd8_keeps:
  assumes "cmd8 spi = Inr (r, spi')"
  shows "card spi' = card spi \<and> issued spi' = issued spi @ [(8, 0x1AA)] \<and> waited spi' = waited spi"
  using cmd8_poll_keeps [OF assms [unfolded cmd8_def]]
  by (simp add: command_frame_eq)

lemma v1_loop_issued:
  "\<exists>cs. issued (hw (snd (initialise_card_v1_loop i d))) = issued (hw d) @ cs \<and>
        (\<forall>ca\<in>set cs. snd ca = 0)"
proof (induction i d rule: initialise_card_v1_loop.induct)
  case (1 i d)
  show ?case
  proof (cases "i < SD_COMMAND_TIMEOUT")
    case False
    then show ?thesis
      by (subst initialise_card_v1_loop.simps) simp
  next
    case True
    obtain r55 spi1 where c55: "cmd (hw d) 55 0 = (r55, spi1)" by (cases "cmd (hw d) 55 0")
    obtain r41 spi2 where c41: "cmd spi1 41 0 = (r41, spi2)" by (cases "cmd spi1 41 0")
    have i2: "issued spi2 = issued (hw d) @ [(55, 0), (41, 0)]"
      using cmd_keeps(2) [of "hw d" 55 0] cmd_keeps(2) [of spi1 41 0] c55 c41 by simp
    show ?thesis
    proof (cases "r41 = 0")
      case True
      with \<open>i < SD_COMMAND_TIMEOUT\<close> c55 c41 i2 show ?thesis
        by (subst initialise_card_v1_loop.simps) simp
    next
      case False
      from "1.IH" [OF True c55 [symmetric] c41 [symmetric] False]
      obtain cs where "issued (hw (snd (initialise_card_v1_loop (i + 1) (d\<lparr>hw := spi2\<rparr>)))) =
            issued (hw (d\<lparr>hw := spi2\<rparr>)) @ cs" and "\<forall>ca\<in>set cs. snd ca = 0"
        by blast
      with True False c55 c41 i2 show ?thesis
        by (subst initialise_card_v1_loop.simps) simp
    qed
  qed
qed

lemma v1_loop_result:
  "fst (initialise_card_v1_loop i d) = SDCARD_V1 \<and> cdv (snd (initialise_card_v1_loop i d)) = 512
   \<or> fst (initialise_card_v1_loop i d) = SDCARD_FAIL"
proof (induction i d rule: initialise_card_v1_loop.induct)
  case (1 i d)
  show ?case
  proof (cases "i < SD_COMMAND_TIMEOUT")
    case False
    then show ?thesis
      by (subst (1 2 3) initialise_card_v1_loop.simps) simp
  next
    case True
    obtain r55 spi1 where c55: "cmd (hw d) 55 0 = (r55, spi1)" by (cases "cmd (hw d) 55 0")
    obtain r41 spi2 where c41: "cmd spi1 41 0 = (r41, spi2)" by (cases "cmd spi1 41 0")
    show ?thesis
    proof (cases "r41 = 0")
      case True
      with \<open>i < SD_COMMAND_TIMEOUT\<close> c55 c41 show ?thesis
        by (subst (1 2 3) initialise_card_v1_loop.simps) (simp add: BLOCK_SIZE_def)
    next
      case False
      from "1.IH" [OF True c55 [symmetric] c41 [symmetric] False] True False c55 c41
      show ?thesis
        by (subst (1 2 3) initialise_card_v1_loop.simps) simp
    qed
  qed
qed


lemma reset_done_issued:
  "issued (hw (reset_done d hal)) = issued (hw d) @ [(0, 0), (0, 0), (0, 0), (0, 0), (0, 0)]"
  by (simp add: reset_done_def Let_def cmd_keeps spi_send_eq spi_cs_def)

text \<open>
  The V1 path as \<^verbatim>\<open>initialise_card\<close> sees it. When the sixth \<^verbatim>\<open>CMD0\<close> has put the
  card into idle state and \<^verbatim>\<open>_cmd8\<close> returns exactly
  \<^verbatim>\<open>R1_IDLE_STATE | R1_ILLEGAL_COMMAND\<close>, \<^verbatim>\<open>initialise_card\<close> is
  \<^verbatim>\<open>initialise_card_v1\<close> from there on; no command issued since the call began
  has bit \<^verbatim>\<open>0x40000000\<close> in its argument; and the result is either \<^verbatim>\<open>SDCARD_V1\<close>
  with \<^verbatim>\<open>_cdv\<close> set to 512, or \<^verbatim>\<open>SDCARD_FAIL\<close>. This is about the value that
  \<^verbatim>\<open>_cmd8\<close> returns, which is the card's answer only when the answer comes on
  the second to the fifth poll (\<open>v1_card\<close> below answers on the second).
\<close>

theorem v1_path_without_high_capacity_bit:
  assumes "fst (cmd (hw (reset_done d hal)) 0 0) = R1_IDLE_STATE"
    and "map_sum id fst (cmd8 (snd (cmd (hw (reset_done d hal)) 0 0))) =
           Inr (R1_IDLE_STATE OR R1_ILLEGAL_COMMAND)"
  shows "\<exists>spi2 r d' cs.
           cmd8 (snd (cmd (hw (reset_done d hal)) 0 0)) = Inr (R1_IDLE_STATE OR R1_ILLEGAL_COMMAND, spi2) \<and>
           initialise_card d hal = Inr (initialise_card_v1 ((reset_done d hal)\<lparr>hw := spi2\<rparr>)) \<and>
           initialise_card d hal = Inr (r, d') \<and>
           issued (hw d') = issued (hw d) @ cs \<and>
           (\<forall>ca\<in>set cs. snd ca AND 0x40000000 = 0) \<and>
           (r = SDCARD_V1 \<and> cdv d' = 512 \<or> r = SDCARD_FAIL)"
proof -
  let ?d1 = "reset_done d hal"
  obtain r0 spi1 where c0: "cmd (hw ?d1) 0 0 = (r0, spi1)"
    by (cases "cmd (hw ?d1) 0 0")
  with assms(1) have r0: "r0 = R1_IDLE_STATE" by simp
  from assms(2) c0 obtain spi2
    where c8: "cmd8 spi1 = Inr (R1_IDLE_STATE OR R1_ILLEGAL_COMMAND, spi2)"
    by (cases "cmd8 spi1") auto
  let ?d2 = "?d1\<lparr>hw := spi2\<rparr>"
  have ne: "R1_IDLE_STATE OR R1_ILLEGAL_COMMAND \<noteq> R1_IDLE_STATE"
    by (simp add: R1_IDLE_STATE_def R1_ILLEGAL_COMMAND_def)
  have ic: "initialise_card d hal = Inr (initialise_card_v1 ?d2)"
    using c0 r0 c8 ne by (simp add: initialise_card_def Let_def)
  obtain r d' where rd: "initialise_card_v1 ?d2 = (r, d')"
    by (cases "initialise_card_v1 ?d2")
  from v1_loop_issued [of 0 ?d2] rd
  obtain cs1 where cs1: "issued (hw d') = issued spi2 @ cs1" "\<forall>ca\<in>set cs1. snd ca = 0"
    by (auto simp add: initialise_card_v1_def)
  have i1: "issued spi1 = issued (hw d) @ [(0, 0), (0, 0), (0, 0), (0, 0), (0, 0), (0, 0)]"
    using cmd_keeps(2) [of "hw ?d1" 0 0] c0 by (simp add: reset_done_issued)
  have i2: "issued spi2 = issued spi1 @ [(8, 0x1AA)]"
    using cmd8_keeps [OF c8] by simp
  let ?cs = "[(0, 0), (0, 0), (0, 0), (0, 0), (0, 0), (0, 0), (8, 0x1AA)] @ cs1"
  have "issued (hw d') = issued (hw d) @ ?cs"
    by (simp add: cs1 i1 i2)
  moreover have "\<forall>ca\<in>set ?cs. snd ca AND (0x40000000 :: u32) = 0"
    using cs1(2) by auto
  moreover have "r = SDCARD_V1 \<and> cdv d' = 512 \<or> r = SDCARD_FAIL"
    using v1_loop_result [of 0 ?d2] rd by (simp add: initialise_card_v1_def)
  ultimately show ?thesis
    using c0 c8 ic rd by auto
qed


lemma v1_card_reset:
  "reset_done (power_on v1_card 0) True =
     (power_on v1_card 0)\<lparr>hal_ptr := True,
        hw := (fresh_bus v1_card)\<lparr>pos := 56,
          sent := replicate 16 0xFF @ concat (replicate 5 [0x40, 0, 0, 0, 0, 0x95, 0xFF, 0xFF]),
          issued := replicate 5 (0, 0)\<rparr>\<rparr>"
  apply (simp add: reset_done_def Let_def power_on_def fresh_bus_def spi_send_eq spi_cs_def
      cmd_first v1_card_def)
  apply (simp add: numeral_eq_Suc)
  done


theorem v1_path_without_high_capacity_bit_witness:
  "fst (cmd (hw (reset_done (power_on v1_card 0) True)) 0 0) = R1_IDLE_STATE
   \<and> map_sum id fst (cmd8 (snd (cmd (hw (reset_done (power_on v1_card 0) True)) 0 0))) =
         Inr (R1_IDLE_STATE OR R1_ILLEGAL_COMMAND)
   \<and> (\<exists>d' cs. initialise_card (power_on v1_card 0) True = Inr (SDCARD_V1, d') \<and> cdv d' = 512
          \<and> issued (hw d') = issued (hw (power_on v1_card 0)) @ cs
          \<and> (\<forall>ca\<in>set cs. snd ca AND 0x40000000 = 0))"
proof -
  have h1: "fst (cmd (hw (reset_done (power_on v1_card 0) True)) 0 0) = R1_IDLE_STATE"
    by (simp add: v1_card_reset cmd_first fresh_bus_def v1_card_def R1_IDLE_STATE_def)
  have h2: "map_sum id fst (cmd8 (snd (cmd (hw (reset_done (power_on v1_card 0) True)) 0 0))) =
         Inr (R1_IDLE_STATE OR R1_ILLEGAL_COMMAND)"
    by (simp add: v1_card_reset cmd_first cmd8_second fresh_bus_def v1_card_def
        R1_IDLE_STATE_def R1_ILLEGAL_COMMAND_def)
  have ev: "map_sum id fst (initialise_card (power_on v1_card 0) True) = Inr SDCARD_V1"
    by (simp add: initialise_card_def Let_def v1_card_reset cmd_first cmd8_second fresh_bus_def
        v1_card_def R1_IDLE_STATE_def R1_ILLEGAL_COMMAND_def initialise_card_v1_def
        initialise_card_v1_loop.simps [of 0] SD_COMMAND_TIMEOUT_def)
  from v1_path_without_high_capacity_bit [OF h1 h2] obtain r d' cs
    where "initialise_card (power_on v1_card 0) True = Inr (r, d')"
      and "issued (hw d') = issued (hw (power_on v1_card 0)) @ cs"
      and "\<forall>ca\<in>set cs. snd ca AND 0x40000000 = 0"
      and "r = SDCARD_V1 \<and> cdv d' = 512 \<or> r = SDCARD_FAIL"
    by blast
  with ev h1 h2 show ?thesis
    by (auto simp add: SDCARD_V1_def SDCARD_FAIL_def)
qed

lemma cmd8_sixth:
  assumes "\<forall>k<5. card spi (pos spi + 6 + k) AND 0x80 \<noteq> 0"
    and "card spi (pos spi + 11) AND 0x80 = 0"
  shows "cmd8 spi = Inl OutOfBounds"
proof -
  let ?f = "command_frame spi 8 0x1AA [ucast (0x40 OR (8 :: u32)), 0x00, 0x00, 0x01, 0xAA, 0x87]"
  have f: "card ?f = card spi" "pos ?f = pos spi + 6"
    by (simp_all add: command_frame_eq)
  have quiet: "\<forall>k<5. card ?f (pos ?f + k) AND 0x80 \<noteq> 0"
    unfolding f using assms(1) .
  have hit: "card ?f (pos ?f + 5) AND 0x80 = 0"
    unfolding f using assms(2) by (simp add: ac_simps)
  have "cmd8 spi = cmd8_poll 0 ?f"
    by (simp add: cmd8_def)
  also have "\<dots> = cmd8_poll (0 + 5) (?f\<lparr>pos := pos ?f + 5, sent := sent ?f @ replicate 5 0xFF\<rparr>)"
    using quiet by (intro cmd8_poll_skip) (simp_all add: SD_COMMAND_TIMEOUT_def)
  also have "\<dots> = Inl OutOfBounds"
    using hit by (subst cmd8_poll_hit) (simp_all add: SD_COMMAND_TIMEOUT_def)
  finally show ?thesis .
qed

lemma replicate_5: "replicate 5 x = [x, x, x, x, x]"
  by (simp add: numeral_eq_Suc)

lemma prompt_v1_card_reset:
  "reset_done (power_on prompt_v1_card 0) True =
     (power_on prompt_v1_card 0)\<lparr>hal_ptr := True,
        hw := (fresh_bus prompt_v1_card)\<lparr>pos := 56,
          sent := replicate 16 0xFF @ concat (replicate 5 [0x40, 0, 0, 0, 0, 0x95, 0xFF, 0xFF]),
          issued := replicate 5 (0, 0)\<rparr>\<rparr>"
  apply (simp add: reset_done_def Let_def power_on_def fresh_bus_def spi_send_eq spi_cs_def
      cmd_first prompt_v1_card_def)
  apply (simp add: numeral_eq_Suc)
  done

lemma late_v1_card_reset:
  "reset_done (power_on late_v1_card 0) True =
     (power_on late_v1_card 0)\<lparr>hal_ptr := True,
        hw := (fresh_bus late_v1_card)\<lparr>pos := 56,
          sent := replicate 16 0xFF @ concat (replicate 5 [0x40, 0, 0, 0, 0, 0x95, 0xFF, 0xFF]),
          issued := replicate 5 (0, 0)\<rparr>\<rparr>"
  apply (simp add: reset_done_def Let_def power_on_def fresh_bus_def spi_send_eq spi_cs_def
      cmd_first late_v1_card_def)
  apply (simp add: numeral_eq_Suc)
  done

lemma prompt_v1_card_probe:
  "fst (cmd (hw (reset_done (power_on prompt_v1_card 0) True)) 0 0) = R1_IDLE_STATE"
  "pos (snd (cmd (hw (reset_done (power_on prompt_v1_card 0) True)) 0 0)) = 64"
  "map_sum id fst (cmd8 (snd (cmd (hw (reset_done (power_on prompt_v1_card 0) True)) 0 0)))
     = Inr 0xFF"
  by (simp_all add: prompt_v1_card_reset cmd_first cmd8_first fresh_bus_def prompt_v1_card_def
      R1_IDLE_STATE_def)

lemma prompt_v1_card_fails:
  "map_sum id fst (initialise_card (power_on prompt_v1_card 0) True) = Inr SDCARD_FAIL"
  "map_sum id (issued \<circ> hw \<circ> snd) (initialise_card (power_on prompt_v1_card 0) True)
     = Inr [(0, 0), (0, 0), (0, 0), (0, 0), (0, 0), (0, 0), (8, 0x1AA)]"
  "result (disk_initialize (power_on prompt_v1_card 0) True) = Some (Inr 1)"
  by (simp_all add: disk_initialize_def result_def initialise_card_def Let_def
      prompt_v1_card_reset cmd_first cmd8_first
      fresh_bus_def prompt_v1_card_def R1_IDLE_STATE_def R1_ILLEGAL_COMMAND_def SDCARD_FAIL_def
      replicate_5)

lemma late_v1_card_fails:
  "initialise_card (power_on late_v1_card 0) True = Inl OutOfBounds"
proof -
  let ?spi = "snd (cmd (hw (reset_done (power_on late_v1_card 0) True)) 0 0)"
  have r: "fst (cmd (hw (reset_done (power_on late_v1_card 0) True)) 0 0) = R1_IDLE_STATE"
    and p: "pos ?spi = 64" and c: "card ?spi = late_v1_card"
    by (simp_all add: late_v1_card_reset cmd_first fresh_bus_def late_v1_card_def R1_IDLE_STATE_def)
  have q: "\<forall>k<5. card ?spi (pos ?spi + 6 + k) AND 0x80 \<noteq> 0"
    unfolding p c by (simp add: late_v1_card_def)
  have h: "card ?spi (pos ?spi + 11) AND 0x80 = 0"
    unfolding p c by (simp add: late_v1_card_def)
  from cmd8_sixth [OF q h] r show ?thesis
    by (simp add: initialise_card_def Let_def split_beta)
qed

text \<open>
  Claim C6 is about a card whose answer to \<^verbatim>\<open>CMD8\<close> is \<^verbatim>\<open>0x05\<close>, idle and illegal
  command. The card \<open>prompt_v1_card\<close> gives that answer on the first poll after
  the frame (the frame is transfers 64 to 69) and nothing else: \<^verbatim>\<open>_cmd8\<close> stores
  the four bytes that follow over \<^verbatim>\<open>response[0]\<close> and returns \<^verbatim>\<open>0xFF\<close>, so
  \<^verbatim>\<open>initialise_card\<close> returns \<^verbatim>\<open>SDCARD_FAIL\<close> after \<^verbatim>\<open>CMD8\<close>, no \<^verbatim>\<open>CMD55\<close> or
  \<^verbatim>\<open>ACMD41\<close> is issued, and \<^verbatim>\<open>disk_initialize\<close> fails. The card \<open>late_v1_card\<close>
  gives it on the sixth poll: the store is outside \<^verbatim>\<open>response\<close>.
\<close>

theorem v1_answer_on_first_poll_is_lost:
  "fst (cmd (hw (reset_done (power_on prompt_v1_card 0) True)) 0 0) = R1_IDLE_STATE
   \<and> pos (snd (cmd (hw (reset_done (power_on prompt_v1_card 0) True)) 0 0)) = 64
   \<and> prompt_v1_card 70 = 0x05
   \<and> map_sum id fst (cmd8 (snd (cmd (hw (reset_done (power_on prompt_v1_card 0) True)) 0 0)))
       = Inr 0xFF
   \<and> map_sum id fst (initialise_card (power_on prompt_v1_card 0) True) = Inr SDCARD_FAIL
   \<and> map_sum id (issued \<circ> hw \<circ> snd) (initialise_card (power_on prompt_v1_card 0) True)
       = Inr [(0, 0), (0, 0), (0, 0), (0, 0), (0, 0), (0, 0), (8, 0x1AA)]
   \<and> result (disk_initialize (power_on prompt_v1_card 0) True) = Some (Inr 1)
   \<and> late_v1_card 75 = 0x05
   \<and> initialise_card (power_on late_v1_card 0) True = Inl OutOfBounds"
  using prompt_v1_card_probe prompt_v1_card_fails late_v1_card_fails
  by (simp add: prompt_v1_card_def late_v1_card_def)

section \<open>Block transfer and capacity\<close>

lemma read_start_Some:
  assumes "read_start spi = Some spi'"
  shows "\<exists>n\<ge>pos spi. card spi n = 0xFE"
proof (rule read_start.raw_induct
    [where P = "\<lambda>spi spi'. \<exists>n\<ge>pos spi. card spi n = 0xFE", OF _ assms])
  fix rs :: "bus \<Rightarrow> bus option" and s s' :: bus
  assume ih: "\<And>x y. rs x = Some y \<Longrightarrow> \<exists>n\<ge>pos x. card x n = 0xFE"
    and eq: "(case spi_read_write s 0xFF of
               (r, spi1) \<Rightarrow> if r \<noteq> 0xFE then rs spi1 else Some spi1) = Some s'"
  show "\<exists>n\<ge>pos s. card s n = 0xFE"
  proof (cases "card s (pos s) = 0xFE")
    case True
    then show ?thesis by blast
  next
    case False
    with eq have "rs (snd (spi_read_write s 0xFF)) = Some s'"
      by (simp add: spi_read_write_def)
    from ih [OF this] obtain n where "Suc (pos s) \<le> n" "card s n = 0xFE"
      by (auto simp add: spi_read_write_def)
    then have "pos s \<le> n \<and> card s n = 0xFE" by simp
    then show ?thesis by blast
  qed
qed

lemma read_start_never:
  "\<forall>n\<ge>pos spi. card spi n \<noteq> 0xFE \<Longrightarrow> read_start spi = None"
  using read_start_Some [of spi] by (cases "read_start spi") auto

lemma write_busy_Some:
  assumes "write_busy spi = Some spi'"
  shows "\<exists>n\<ge>pos spi. card spi n \<noteq> 0"
proof (rule write_busy.raw_induct
    [where P = "\<lambda>spi spi'. \<exists>n\<ge>pos spi. card spi n \<noteq> 0", OF _ assms])
  fix wb :: "bus \<Rightarrow> bus option" and s s' :: bus
  assume ih: "\<And>x y. wb x = Some y \<Longrightarrow> \<exists>n\<ge>pos x. card x n \<noteq> 0"
    and eq: "(case spi_read_write s 0xFF of
               (r, spi1) \<Rightarrow> if r = 0 then wb spi1 else Some spi1) = Some s'"
  show "\<exists>n\<ge>pos s. card s n \<noteq> 0"
  proof (cases "card s (pos s) = 0")
    case False
    then show ?thesis by blast
  next
    case True
    with eq have "wb (snd (spi_read_write s 0xFF)) = Some s'"
      by (simp add: spi_read_write_def)
    from ih [OF this] obtain n where "Suc (pos s) \<le> n" "card s n \<noteq> 0"
      by (auto simp add: spi_read_write_def)
    then have "pos s \<le> n \<and> card s n \<noteq> 0" by simp
    then show ?thesis by blast
  qed
qed

lemma write_busy_never:
  "\<forall>n\<ge>pos spi. card spi n = 0 \<Longrightarrow> write_busy spi = None"
  using write_busy_Some [of spi] by (cases "write_busy spi") auto


lemma read_start_first:
  "card spi (pos spi) = 0xFE \<Longrightarrow>
     read_start spi = Some (spi\<lparr>pos := pos spi + 1, sent := sent spi @ [0xFF]\<rparr>)"
  by (subst read_start.simps) (simp add: spi_read_write_def)

lemma read_bytes_eq:
  "read_bytes n spi =
     (map (\<lambda>k. card spi (pos spi + k)) [0..<n],
      spi\<lparr>pos := pos spi + n, sent := sent spi @ replicate n 0xFF\<rparr>)"
proof (induction n arbitrary: spi)
  case 0
  then show ?case by simp
next
  case (Suc n)
  show ?case
    by (simp add: spi_read_write_def Suc.IH map_upt_Suc replicate_app_Cons_same
        del: upt_Suc)
qed

lemma read_start_keeps:
  assumes "read_start spi = Some spi'"
  shows "card spi' = card spi \<and> issued spi' = issued spi \<and> waited spi' = waited spi"
proof (rule read_start.raw_induct
    [where P = "\<lambda>spi spi'. card spi' = card spi \<and> issued spi' = issued spi \<and> waited spi' = waited spi",
     OF _ assms])
  fix rs :: "bus \<Rightarrow> bus option" and s s' :: bus
  assume ih: "\<And>x y. rs x = Some y \<Longrightarrow>
                card y = card x \<and> issued y = issued x \<and> waited y = waited x"
    and eq: "(case spi_read_write s 0xFF of
               (r, spi1) \<Rightarrow> if r \<noteq> 0xFE then rs spi1 else Some spi1) = Some s'"
  show "card s' = card s \<and> issued s' = issued s \<and> waited s' = waited s"
  proof (cases "card s (pos s) = 0xFE")
    case True
    with eq show ?thesis
      by (auto simp add: spi_read_write_def)
  next
    case False
    with eq have "rs (snd (spi_read_write s 0xFF)) = Some s'"
      by (simp add: spi_read_write_def)
    from ih [OF this] show ?thesis
      by (simp add: spi_read_write_def)
  qed
qed

lemma sd_read_Some:
  assumes "sd_read spi n = Some (r, buffer, spi')"
  shows "r = 0 \<and> length buffer = n \<and> issued spi' = issued spi \<and> card spi' = card spi"
proof -
  from assms obtain spi1 where rs: "read_start (spi_cs spi 1) = Some spi1"
    by (auto simp add: sd_read_def split: option.splits)
  from read_start_keeps [OF rs] assms rs show ?thesis
    by (auto simp add: sd_read_def read_bytes_eq spi_send_eq spi_cs_def)
qed

lemma sd_read_first:
  assumes "card spi (pos spi) = 0xFE"
  shows "sd_read spi n =
     Some (0, map (\<lambda>k. card spi (pos spi + 1 + k)) [0..<n],
           spi\<lparr>pos := pos spi + n + 4, cs := 0,
               sent := sent spi @ 0xFF # replicate n 0xFF @ [0xFF, 0xFF, 0xFF]\<rparr>)"
  using assms
  by (simp add: sd_read_def spi_cs_def read_start_first read_bytes_eq spi_send_eq)

lemma sd_read_never:
  "\<forall>n\<ge>pos spi. card spi n \<noteq> 0xFE \<Longrightarrow> sd_read spi len = None"
  by (simp add: sd_read_def read_start_never spi_cs_def)

text \<open>
  Claim C7 asks every busy-wait loop to give up after a bounded number of
  exchanges. The command loops do (they are total functions above); the wait for
  the start token in \<^verbatim>\<open>_read\<close> and the wait for the end of busy in \<^verbatim>\<open>_write\<close> do
  not: on a card that stays silent the block read never returns, on a card that
  accepts a block and then holds the line low the block write never returns, and
  a capacity query answered by \<^verbatim>\<open>0x00\<close> and then silence never returns either.
\<close>

theorem block_polls_never_return:
  "sd_read (fresh_bus silent_card) 512 = None
   \<and> sd_write (fresh_bus busy_card) (replicate 512 0) = None
   \<and> disk_capacity (power_on mute_card 0) = None"
proof (intro conjI)
  show "sd_read (fresh_bus silent_card) 512 = None"
    by (simp add: sd_read_never fresh_bus_def silent_card_def)
  show "sd_write (fresh_bus busy_card) (replicate 512 0) = None"
    by (simp add: sd_write_def Let_def spi_send_eq spi_cs_def fresh_bus_def spi_read_write_def
        write_busy_never busy_card_def)
  show "disk_capacity (power_on mute_card 0) = None"
    by (simp add: disk_capacity_def power_on_def fresh_bus_def cmdx_first sd_read_never
        mute_card_def)
qed


lemma bit_slice_less: "bit_slice v msb lsb < 2 ^ (1 + msb - lsb)"
  by (simp add: bit_slice_def)

lemma unat_of_nat_u32: "n < 2 ^ 32 \<Longrightarrow> unat (of_nat n :: u32) = n"
  by (simp add: unat_of_nat)

lemma of_nat_u32_eq_iff:
  "m < 2 ^ 32 \<Longrightarrow> n < 2 ^ 32 \<Longrightarrow> (of_nat m :: u32) = of_nat n \<longleftrightarrow> m = n"
  by (metis unat_of_nat_u32)

lemma blocks_of_capacity:
  "ucast ((of_nat x :: u32) div 512) = (of_nat (x mod 2 ^ 32 div 512) :: u64)"
proof -
  have "ucast ((of_nat x :: u32) div 512) = (of_nat (unat ((of_nat x :: u32) div 512)) :: u64)"
    by simp
  also have "unat ((of_nat x :: u32) div 512) = x mod 2 ^ 32 div 512"
    by (simp add: unat_div unat_of_nat)
  finally show ?thesis .
qed


lemma ext_bits_csd:
  assumes "length csd = 16"
  shows "ext_bits csd 127 126 = Inr (of_nat (bit_slice (csd_value csd) 127 126))"
    and "ext_bits csd 73 62 = Inr (of_nat (bit_slice (csd_value csd) 73 62))"
    and "ext_bits csd 49 47 = Inr (of_nat (bit_slice (csd_value csd) 49 47))"
    and "ext_bits csd 83 80 = Inr (of_nat (bit_slice (csd_value csd) 83 80))"
    and "ext_bits csd 69 48 = Inr (of_nat (bit_slice (csd_value csd) 69 48))"
  using ext_bits_slice [OF assms, of 126 127] ext_bits_slice [OF assms, of 62 73]
    ext_bits_slice [OF assms, of 47 49] ext_bits_slice [OF assms, of 80 83]
    ext_bits_slice [OF assms, of 48 69]
  by simp_all

lemma capacity_u32:
  assumes "csm < 8" "rbl < 16"
  shows "(of_nat csz + 1) * 2 ^ unat (of_nat csm + 2 :: u32) * 2 ^ unat (of_nat rbl :: u32)
         = (of_nat ((csz + 1) * 2 ^ (csm + 2) * 2 ^ rbl) :: u32)"
proof -
  have "unat (of_nat rbl :: u32) = rbl"
    using assms by (simp add: unat_of_nat)
  moreover have "of_nat csm + 2 = (of_nat (csm + 2) :: u32)"
    by simp
  then have "unat (of_nat csm + 2 :: u32) = csm + 2"
    using assms by (simp only: unat_of_nat) simp
  ultimately show ?thesis
    by (simp add: algebra_simps)
qed

lemma ucast_of_nat_u32:
  "ucast (of_nat x :: u32) = (of_nat (x mod 2 ^ 32) :: u64)"
proof -
  have "ucast (of_nat x :: u32) = (of_nat (unat (of_nat x :: u32)) :: u64)"
    by simp
  then show ?thesis
    by (simp only: unat_of_nat) simp
qed

lemma structure_cases:
  "of_nat (bit_slice v 127 126) = (0 :: u32) \<longleftrightarrow> bit_slice v 127 126 = 0"
  "of_nat (bit_slice v 127 126) = (1 :: u32) \<longleftrightarrow> bit_slice v 127 126 = 1"
  using bit_slice_less [of v 127 126] of_nat_u32_eq_iff [of "bit_slice v 127 126" 0]
    of_nat_u32_eq_iff [of "bit_slice v 127 126" 1]
  by simp_all

lemma blocks_eq:
  "w = (of_nat n :: u32) \<Longrightarrow> ucast (w div 512) = (of_nat (n mod 4294967296 div 512) :: u64)"
  using blocks_of_capacity [of n] by simp

lemma capacity_eq:
  "w = (of_nat n :: u32) \<Longrightarrow> ucast w = (of_nat (n mod 4294967296) :: u64)"
  using ucast_of_nat_u32 [of n] by simp

lemma sd_sectors_eq:
  assumes "cmdx (hw d) 9 0 = (0, spi1)" and "sd_read spi1 16 = Some (rr, csd, spi2)"
  shows "sd_sectors d = Some (Inr
     (if bit_slice (csd_value csd) 127 126 = 0
      then (of_nat (spec_capacity_v0 csd mod 2 ^ 32 div 512), d\<lparr>hw := spi2, cdv := 512\<rparr>)
      else if bit_slice (csd_value csd) 127 126 = 1
      then (of_nat ((bit_slice (csd_value csd) 69 48 + 1) * 1024), d\<lparr>hw := spi2, cdv := 1\<rparr>)
      else (0, d\<lparr>hw := spi2\<rparr>)))"
proof -
  from sd_read_Some [OF assms(2)] have rr: "rr = 0" and len: "length csd = 16"
    by simp_all
  have lt: "bit_slice (csd_value csd) 49 47 < 8" "bit_slice (csd_value csd) 83 80 < 16"
    using bit_slice_less [of "csd_value csd" 49 47] bit_slice_less [of "csd_value csd" 83 80]
    by simp_all
  have hc: "ucast (of_nat (bit_slice (csd_value csd) 69 48) :: u32)
              = (of_nat (bit_slice (csd_value csd) 69 48) :: u64)"
  proof -
    have "bit_slice (csd_value csd) 69 48 < 2 ^ 32"
      using bit_slice_less [of "csd_value csd" 69 48] by simp
    then show ?thesis
      by (simp add: ucast_of_nat_u32)
  qed
  show ?thesis
    using assms rr
    apply (simp add: sd_sectors_def ext_bits_csd [OF len] structure_cases Let_def BLOCK_SIZE_def
        capacity_u32 [OF lt] spec_capacity_v0_def hc)
    apply (intro impI)
    apply (rule blocks_eq)
    apply simp
    done
qed

lemma disk_capacity_eq:
  assumes "cmdx (hw d) 9 0 = (0, spi1)" and "sd_read spi1 16 = Some (rr, csd, spi2)"
  shows "disk_capacity d = Some (Inr
     (if bit_slice (csd_value csd) 127 126 = 0
      then of_nat (spec_capacity_v0 csd mod 2 ^ 32)
      else if bit_slice (csd_value csd) 127 126 = 1 then sectors d * 512
      else 0, d\<lparr>hw := spi2\<rparr>))"
proof -
  from sd_read_Some [OF assms(2)] have rr: "rr = 0" and len: "length csd = 16"
    by simp_all
  have lt: "bit_slice (csd_value csd) 49 47 < 8" "bit_slice (csd_value csd) 83 80 < 16"
    using bit_slice_less [of "csd_value csd" 49 47] bit_slice_less [of "csd_value csd" 83 80]
    by simp_all
  show ?thesis
    using assms rr
    apply (simp add: disk_capacity_def ext_bits_csd [OF len] structure_cases Let_def BLOCK_SIZE_def
        capacity_u32 [OF lt] spec_capacity_v0_def)
    apply (intro impI)
    apply (rule capacity_eq)
    apply simp
    done
qed

lemma disk_capacity_no_response:
  assumes "cmdx (hw d) 9 0 = (r, spi1)" "r \<noteq> 0"
  shows "disk_capacity d = Some (Inr (0, d\<lparr>hw := spi1\<rparr>))"
  using assms by (simp add: disk_capacity_def)


lemma cmdx_poll_keeps:
  "card (snd (cmdx_poll i spi)) = card spi \<and> issued (snd (cmdx_poll i spi)) = issued spi
   \<and> waited (snd (cmdx_poll i spi)) = waited spi"
proof (induction i spi rule: cmdx_poll.induct)
  case (1 i spi)
  show ?case
  proof (cases "i < SD_COMMAND_TIMEOUT")
    case False
    then show ?thesis
      by (subst (1 2 3) cmdx_poll.simps) (simp add: spi_send_eq spi_cs_def)
  next
    case True
    show ?thesis
    proof (cases "card spi (pos spi) AND 0x80 = 0")
      case hit: True
      with True show ?thesis
        by (subst (1 2 3) cmdx_poll.simps) (simp add: spi_read_write_def)
    next
      case miss: False
      then have "fst (spi_read_write spi 0xFF) AND 0x80 \<noteq> 0"
        by (simp add: spi_read_write_def)
      from "1.IH" [OF True prod.collapse this] True miss
      show ?thesis
        by (subst (1 2 3) cmdx_poll.simps) (simp add: spi_read_write_def)
    qed
  qed
qed

lemma cmdx_keeps:
  "card (snd (cmdx spi c arg)) = card spi"
  "issued (snd (cmdx spi c arg)) = issued spi @ [(c, arg)]"
  "waited (snd (cmdx spi c arg)) = waited spi"
  by (simp_all add: cmdx_def cmdx_poll_keeps command_frame_eq)

lemma captured_register:
  assumes "register_read d = Some csd"
  obtains rr spi2 where "sd_read (snd (cmdx (hw d) 9 0)) 16 = Some (rr, csd, spi2)"
  using assms by (cases "sd_read (snd (cmdx (hw d) 9 0)) 16") (auto simp add: register_read_def)

lemma sd_sectors_value:
  assumes "fst (cmdx (hw d) 9 0) = 0"
    and "register_read d = Some csd"
  shows "result (sd_sectors d) =
     Some (Inr (of_nat
       (if bit_slice (csd_value csd) 127 126 = 0 then spec_capacity_v0 csd mod 2 ^ 32 div 512
        else if bit_slice (csd_value csd) 127 126 = 1
        then (bit_slice (csd_value csd) 69 48 + 1) * 1024
        else 0)))"
proof -
  from assms(1) have c: "cmdx (hw d) 9 0 = (0, snd (cmdx (hw d) 9 0))"
    by (metis prod.collapse)
  from captured_register [OF assms(2)] obtain rr spi2
    where r: "sd_read (snd (cmdx (hw d) 9 0)) 16 = Some (rr, csd, spi2)" .
  show ?thesis
    by (simp add: sd_sectors_eq [OF c r] result_def)
qed

lemma disk_capacity_value:
  assumes "fst (cmdx (hw d) 9 0) = 0"
    and "register_read d = Some csd"
  shows "result (disk_capacity d) =
     Some (Inr
       (if bit_slice (csd_value csd) 127 126 = 0 then of_nat (spec_capacity_v0 csd mod 2 ^ 32)
        else if bit_slice (csd_value csd) 127 126 = 1 then sectors d * 512
        else 0))"
proof -
  from assms(1) have c: "cmdx (hw d) 9 0 = (0, snd (cmdx (hw d) 9 0))"
    by (metis prod.collapse)
  from captured_register [OF assms(2)] obtain rr spi2
    where r: "sd_read (snd (cmdx (hw d) 9 0)) 16 = Some (rr, csd, spi2)" .
  show ?thesis
    by (simp add: disk_capacity_eq [OF c r] result_def)
qed

lemma csd_card_answers:
  assumes "length csd = 16" and "hw d = fresh_bus (csd_card csd)"
  shows "fst (cmdx (hw d) 9 0) = 0"
    and "register_read d = Some csd"
proof -
  let ?c = "csd_card csd"
  have c6: "?c 6 = 0x00" and c7: "?c 7 = 0xFE"
    by (simp_all add: csd_card_def script_def nth_append)
  have cx: "cmdx (hw d) 9 0 =
      (0, (fresh_bus ?c)\<lparr>pos := 7, cs := 1, sent := [0x49, 0, 0, 0, 0, 0x95, 0xFF],
             issued := [(9, 0)]\<rparr>)"
    by (simp add: assms(2) cmdx_first fresh_bus_def c6)
  show "fst (cmdx (hw d) 9 0) = 0"
    by (simp add: cx)
  have "map (\<lambda>k. ?c (8 + k)) [0..<16] = map ((!) csd) [0..<length csd]"
    using assms(1) by (intro map_cong) (auto simp add: csd_card_def script_def nth_append)
  also have "\<dots> = csd"
    by (rule map_nth)
  finally have data: "map (\<lambda>k. ?c (8 + k)) [0..<16] = csd" .
  show "register_read d = Some csd"
    using data by (simp add: register_read_def cx sd_read_first fresh_bus_def c7)
qed

lemma hw_power_on: "hw (power_on c n) = fresh_bus c"
  by (simp add: power_on_def)

lemma sectors_power_on: "sectors (power_on c n) = 0"
  by (simp add: power_on_def)

lemma csd_values:
  "bit_slice (csd_value sdhc_csd) 127 126 = 1"
  "bit_slice (csd_value sdhc_csd) 69 48 = 4096"
  "bit_slice (csd_value sdsc_4g_csd) 127 126 = 0"
  "spec_capacity_v0 sdsc_4g_csd = 4294967296"
  by (simp_all add: sdhc_csd_def sdsc_4g_csd_def csd_value_def bit_slice_def spec_capacity_v0_def)

text \<open>
  Claim C8 gives the version-0 sector count as
  \<open>((cSize + 1) << (cSizeMult + 2)) * (1 << readBlockLen) / 512\<close> for every register.
  The product is a \<^verbatim>\<open>uint32_t\<close>: for the 4 GiB register it is \<open>2 ^ 32\<close>, which the
  code holds as 0, and \<^verbatim>\<open>_sd_sectors\<close> returns 0 where the formula gives 8388608.
\<close>

theorem sd_sectors_wraps_at_4GiB:
  "register_read (power_on (csd_card sdsc_4g_csd) 0)
     = Some sdsc_4g_csd
   \<and> result (sd_sectors (power_on (csd_card sdsc_4g_csd) 0)) = Some (Inr 0)
   \<and> spec_sectors sdsc_4g_csd = 8388608"
  using csd_card_answers [of sdsc_4g_csd "power_on (csd_card sdsc_4g_csd) 0"]
    sd_sectors_value [of "power_on (csd_card sdsc_4g_csd) 0" sdsc_4g_csd]
  by (simp add: csd_values spec_sectors_def hw_power_on) (simp add: sdsc_4g_csd_def)


text \<open>
  Claim C8, amended: once \<^verbatim>\<open>CMD9\<close> is answered with 0 and the register \<open>csd\<close> is
  captured, \<^verbatim>\<open>_sd_sectors\<close> returns, for structure 0, the capacity
  \<open>(cSize + 1) * 2 ^ (cSizeMult + 2) * 2 ^ readBlockLen\<close> reduced modulo \<open>2 ^ 32\<close> and
  divided by 512; for structure 1, \<open>(hcCSize + 1) * 1024\<close>; for any other
  structure, 0. The fields are the slices \<open>[73:62]\<close>, \<open>[49:47]\<close>, \<open>[83:80]\<close>,
  \<open>[69:48]\<close>, \<open>[127:126]\<close> of the register.
\<close>

theorem sd_sectors_of_register:
  assumes "fst (cmdx (hw d) 9 0) = 0"
    and "register_read d = Some csd"
  shows "result (sd_sectors d) =
     Some (Inr (of_nat
       (if bit_slice (csd_value csd) 127 126 = 0 then spec_capacity_v0 csd mod 2 ^ 32 div 512
        else if bit_slice (csd_value csd) 127 126 = 1
        then (bit_slice (csd_value csd) 69 48 + 1) * 1024
        else 0)))"
  using assms by (rule sd_sectors_value)

theorem sd_sectors_of_register_witness:
  "fst (cmdx (hw (power_on (csd_card sdhc_csd) 0)) 9 0) = 0
   \<and> register_read (power_on (csd_card sdhc_csd) 0)
       = Some sdhc_csd
   \<and> result (sd_sectors (power_on (csd_card sdhc_csd) 0)) = Some (Inr 4195328)"
proof -
  have len: "length sdhc_csd = 16"
    by (simp add: sdhc_csd_def)
  note h = csd_card_answers [OF len hw_power_on [of _ 0]]
  from sd_sectors_of_register [OF h] h show ?thesis
    by (simp add: csd_values)
qed

lemma disk_capacity_issued:
  assumes "disk_capacity d = Some (Inr (c, d'))"
  shows "issued (hw d') = issued (hw d) @ [(9, 0)]"
proof -
  obtain r9 spi1 where c9: "cmdx (hw d) 9 0 = (r9, spi1)"
    by (cases "cmdx (hw d) 9 0")
  then have i1: "issued spi1 = issued (hw d) @ [(9, 0)]"
    using cmdx_keeps(2) [of "hw d" 9 0] by simp
  show ?thesis
  proof (cases "r9 = 0")
    case False
    with assms c9 i1 show ?thesis
      by (auto simp add: disk_capacity_def)
  next
    case True
    with assms c9 obtain rr csd spi2 where r: "sd_read spi1 16 = Some (rr, csd, spi2)"
      by (cases "sd_read spi1 16") (auto simp add: disk_capacity_def)
    from disk_capacity_eq [OF c9 [unfolded True] r] assms have "d' = d\<lparr>hw := spi2\<rparr>"
      by simp
    with sd_read_Some [OF r] i1 show ?thesis
      by simp
  qed
qed

text \<open>
  Claim C5 says that the capacity returned is always decoded from the register
  captured during the call. For a version-1 register the code multiplies the
  sector count kept from initialisation by 512 instead: where that count is 0
  (initialisation did not get so far) the high-capacity register with
  \<open>C_SIZE = 0x1000\<close>, worth \<open>4097 * 1024\<close> sectors, gives capacity 0.
\<close>

theorem disk_capacity_uses_cached_sectors:
  "register_read (power_on (csd_card sdhc_csd) 0)
     = Some sdhc_csd
   \<and> bit_slice (csd_value sdhc_csd) 127 126 = 1
   \<and> (bit_slice (csd_value sdhc_csd) 69 48 + 1) * 1024 * 512 = 2148007936
   \<and> result (disk_capacity (power_on (csd_card sdhc_csd) 0)) = Some (Inr 0)"
proof -
  have len: "length sdhc_csd = 16"
    by (simp add: sdhc_csd_def)
  note h = csd_card_answers [OF len hw_power_on [of _ 0]]
  from disk_capacity_value [OF h] h show ?thesis
    by (simp add: csd_values sectors_power_on)
qed

text \<open>
  Claim C5, amended: every call of \<^verbatim>\<open>disk_capacity\<close> issues \<^verbatim>\<open>CMD9\<close> once and
  nothing else; when \<^verbatim>\<open>CMD9\<close> is not answered with 0 the result is 0; when it is
  and the register \<open>csd\<close> is captured, the result is, for structure 0, the capacity
  decoded from that register modulo \<open>2 ^ 32\<close>; for structure 1, the sector count
  stored at initialisation times 512, whatever the register says; otherwise 0.
\<close>

theorem disk_capacity_rereads_register:
  "(\<forall>c d'. disk_capacity d = Some (Inr (c, d')) \<longrightarrow> issued (hw d') = issued (hw d) @ [(9, 0)])
   \<and> (fst (cmdx (hw d) 9 0) \<noteq> 0 \<longrightarrow>
        result (disk_capacity d) = Some (Inr 0))
   \<and> (fst (cmdx (hw d) 9 0) = 0
        \<and> register_read d = Some csd \<longrightarrow>
        result (disk_capacity d) =
          Some (Inr
            (if bit_slice (csd_value csd) 127 126 = 0 then of_nat (spec_capacity_v0 csd mod 2 ^ 32)
             else if bit_slice (csd_value csd) 127 126 = 1 then sectors d * 512
             else 0)))"
proof (intro conjI allI impI)
  fix c d' assume "disk_capacity d = Some (Inr (c, d'))"
  then show "issued (hw d') = issued (hw d) @ [(9, 0)]"
    by (rule disk_capacity_issued)
next
  assume "fst (cmdx (hw d) 9 0) \<noteq> 0"
  then show "result (disk_capacity d) = Some (Inr 0)"
    using disk_capacity_no_response [of d "fst (cmdx (hw d) 9 0)" "snd (cmdx (hw d) 9 0)"]
    by (simp add: result_def)
next
  assume "fst (cmdx (hw d) 9 0) = 0
        \<and> register_read d = Some csd"
  then show "result (disk_capacity d) =
          Some (Inr
            (if bit_slice (csd_value csd) 127 126 = 0 then of_nat (spec_capacity_v0 csd mod 2 ^ 32)
             else if bit_slice (csd_value csd) 127 126 = 1 then sectors d * 512
             else 0))"
    using disk_capacity_value [of d csd] by simp
qed

theorem disk_capacity_rereads_register_witness:
  "fst (cmdx (hw ((power_on (csd_card sdhc_csd) 0)\<lparr>sectors := 7\<rparr>)) 9 0) = 0
   \<and> register_read ((power_on (csd_card sdhc_csd) 0)\<lparr>sectors := 7\<rparr>)
       = Some sdhc_csd
   \<and> result (disk_capacity ((power_on (csd_card sdhc_csd) 0)\<lparr>sectors := 7\<rparr>))
       = Some (Inr 3584)
   \<and> (\<exists>d'. disk_capacity ((power_on (csd_card sdhc_csd) 0)\<lparr>sectors := 7\<rparr>) = Some (Inr (3584, d'))
         \<and> issued (hw d') = [(9, 0)])
   \<and> fst (cmdx (hw (power_on rejecting_card 0)) 9 0) \<noteq> 0
   \<and> result (disk_capacity (power_on rejecting_card 0)) = Some (Inr 0)"
proof -
  let ?d = "(power_on (csd_card sdhc_csd) 0)\<lparr>sectors := 7\<rparr>"
  have len: "length sdhc_csd = 16"
    by (simp add: sdhc_csd_def)
  have hwd: "hw ?d = fresh_bus (csd_card sdhc_csd)"
    by (simp add: hw_power_on)
  note h = csd_card_answers [OF len hwd]
  have v: "result (disk_capacity ?d) = Some (Inr 3584)"
    using disk_capacity_rereads_register [of ?d sdhc_csd] h by (simp add: csd_values)
  then obtain d' where d': "disk_capacity ?d = Some (Inr (3584, d'))"
    by (cases "disk_capacity ?d") (auto simp add: result_def map_sum_def split: sum.splits)
  then have "issued (hw d') = [(9, 0)]"
    using disk_capacity_rereads_register [of ?d sdhc_csd] by (simp add: power_on_def fresh_bus_def)
  moreover have n: "fst (cmdx (hw (power_on rejecting_card 0)) 9 0) \<noteq> 0"
    by (simp add: cmdx_first power_on_def fresh_bus_def rejecting_card_def)
  moreover have "result (disk_capacity (power_on rejecting_card 0)) = Some (Inr 0)"
    using disk_capacity_rereads_register [of "power_on rejecting_card 0" sdhc_csd] n by blast
  ultimately show ?thesis
    using h v d' by blast
qed

section \<open>A healthy card after bring-up\<close>


lemma small_csd_values:
  "length small_csd = 16"
  "bit_slice (csd_value small_csd) 127 126 = 0"
  "spec_capacity_v0 small_csd = 4096"
  by (simp_all add: small_csd_def csd_value_def bit_slice_def spec_capacity_v0_def)









section \<open>Byte-range requests: the bounds check\<close>








section \<open>Byte-range requests: a block that fails\<close>



























section \<open>A bring-up that fails\<close>

lemma rejecting_card_reset:
  "reset_done (power_on rejecting_card n) True =
     (power_on rejecting_card n)\<lparr>hal_ptr := True,
        hw := (fresh_bus rejecting_card)\<lparr>pos := 56,
          sent := replicate 16 0xFF @ concat (replicate 5 [0x40, 0, 0, 0, 0, 0x95, 0xFF, 0xFF]),
          issued := replicate 5 (0, 0)\<rparr>\<rparr>"
  apply (simp add: reset_done_def Let_def power_on_def fresh_bus_def spi_send_eq spi_cs_def
      cmd_first rejecting_card_def)
  apply (simp add: numeral_eq_Suc)
  done

lemma rejecting_card_boot:
  "post_init (power_on rejecting_card n) 1 =
     Some (Inr ((power_on rejecting_card n)\<lparr>hal_ptr := True, init_ok := True,
        hw := (fresh_bus rejecting_card)\<lparr>pos := 64,
          sent := replicate 16 0xFF @ concat (replicate 6 [0x40, 0, 0, 0, 0, 0x95, 0xFF, 0xFF]),
          issued := replicate 6 (0, 0)\<rparr>\<rparr>))"
  apply (simp add: post_init_def disk_initialize_def initialise_card_def Let_def
      rejecting_card_reset cmd_first fresh_bus_def rejecting_card_def R1_IDLE_STATE_def
      SDCARD_FAIL_def)
  apply (simp add: power_on_def numeral_eq_Suc)
  done

lemma booted_rejecting_card:
  "booted rejecting_card n =
     (power_on rejecting_card n)\<lparr>hal_ptr := True, init_ok := True,
        hw := (fresh_bus rejecting_card)\<lparr>pos := 64,
          sent := replicate 16 0xFF @ concat (replicate 6 [0x40, 0, 0, 0, 0, 0x95, 0xFF, 0xFF]),
          issued := replicate 6 (0, 0)\<rparr>\<rparr>"
  by (simp add: booted_def rejecting_card_boot)

lemma rejecting_card_init:
  "result (disk_initialize (power_on rejecting_card n) True) = Some (Inr 1)"
  by (simp add: result_def disk_initialize_def initialise_card_def Let_def
      rejecting_card_reset cmd_first fresh_bus_def rejecting_card_def R1_IDLE_STATE_def
      SDCARD_FAIL_def)

lemma booted_rejecting_capacity:
  "\<exists>d1. disk_capacity (booted rejecting_card n) = Some (Inr (0, d1)) \<and> pos (hw d1) = 71"
  by (simp add: disk_capacity_def booted_rejecting_card cmdx_first fresh_bus_def
      rejecting_card_def)

lemma booted_rejecting_write:
  "reply (storage_rpc_write (booted rejecting_card 8) 0 0) = Some (Inr (OS_SUCCESS, 0))
   \<and> transfers (storage_rpc_write (booted rejecting_card 8) 0 0) = Some 71"
proof -
  from booted_rejecting_capacity [of 8] obtain d1
    where c: "disk_capacity (booted rejecting_card 8) = Some (Inr (0, d1))" and p: "pos (hw d1) = 71"
    by blast
  have i: "init_ok (booted rejecting_card 8)"
    "length (port_storage (booted rejecting_card 8)) = 8"
    by (simp_all add: booted_rejecting_card power_on_def)
  have "storage_rpc_write (booted rejecting_card 8) 0 0 = Some (Inr (OS_SUCCESS, 0, d1))"
    by (simp add: storage_rpc_write_def isValidMSDArea_def Let_def c i word_sle_eq)
  with p show ?thesis
    by (simp add: reply_def transfers_def)
qed

lemma booted_rejecting_read:
  "reply (storage_rpc_read (booted rejecting_card 8) 0 1) = Some (Inr (OS_ERROR_OUT_OF_BOUNDS, 0))"
proof -
  from booted_rejecting_capacity [of 8] obtain d1
    where c: "disk_capacity (booted rejecting_card 8) = Some (Inr (0, d1))"
    by blast
  have i: "init_ok (booted rejecting_card 8)"
    "length (port_storage (booted rejecting_card 8)) = 8"
    by (simp_all add: booted_rejecting_card power_on_def)
  have "storage_rpc_read (booted rejecting_card 8) 0 1 = Some (Inr (OS_ERROR_OUT_OF_BOUNDS, 0, d1))"
    by (simp add: storage_rpc_read_def isValidMSDArea_def Let_def c i word_sle_eq)
  then show ?thesis
    by (simp add: reply_def)
qed

lemma cmd16_rejecting_card_reset:
  "reset_done (power_on cmd16_rejecting_card n) True =
     (power_on cmd16_rejecting_card n)\<lparr>hal_ptr := True,
        hw := (fresh_bus cmd16_rejecting_card)\<lparr>pos := 56,
          sent := replicate 16 0xFF @ concat (replicate 5 [0x40, 0, 0, 0, 0, 0x95, 0xFF, 0xFF]),
          issued := replicate 5 (0, 0)\<rparr>\<rparr>"
  apply (simp add: reset_done_def Let_def power_on_def fresh_bus_def spi_send_eq spi_cs_def
      cmd_first cmd16_rejecting_card_def v1_card_def)
  apply (simp add: numeral_eq_Suc)
  done

lemma cmd16_rejecting_card_csd:
  "map (\<lambda>k. cmd16_rejecting_card (101 + k)) [0..<16] = small_csd"
proof -
  have "map (\<lambda>k. cmd16_rejecting_card (101 + k)) [0..<16]
      = map ((!) small_csd) [0..<length small_csd]"
    by (intro map_cong) (auto simp add: cmd16_rejecting_card_def small_csd_values)
  also have "\<dots> = small_csd"
    by (rule map_nth)
  finally show ?thesis .
qed

lemma cmd16_rejecting_card_bringup:
  "\<exists>d. initialise_card (power_on cmd16_rejecting_card n) True = Inr (SDCARD_V1, d)
      \<and> hal_ptr d \<and> card (hw d) = cmd16_rejecting_card \<and> pos (hw d) = 93"
  by (simp add: initialise_card_def Let_def cmd16_rejecting_card_reset cmd_first cmd8_second
      fresh_bus_def cmd16_rejecting_card_def
      v1_card_def R1_IDLE_STATE_def R1_ILLEGAL_COMMAND_def initialise_card_v1_def
      initialise_card_v1_loop.simps [of 0] SD_COMMAND_TIMEOUT_def)

lemma cmd16_rejecting_card_init:
  "\<exists>d. disk_initialize (power_on cmd16_rejecting_card n) True = Some (Inr (1, d))
      \<and> hal_ptr d \<and> is_initialized d = 1 \<and> sectors d = 8"
proof -
  from cmd16_rejecting_card_bringup [of n] obtain d0
    where i: "initialise_card (power_on cmd16_rejecting_card n) True = Inr (SDCARD_V1, d0)"
      and h: "hal_ptr d0" and c: "card (hw d0) = cmd16_rejecting_card" and p: "pos (hw d0) = 93"
    by blast
  let ?d2 = "d0\<lparr>is_initialized := SDCARD_V1\<rparr>"
  define spi1 where "spi1 = snd (cmdx (hw ?d2) 9 0)"
  have c9: "cmdx (hw ?d2) 9 0 = (0, spi1)"
    and s1: "card spi1 = cmd16_rejecting_card" "pos spi1 = 100"
    unfolding spi1_def by (simp_all add: cmdx_first c p cmd16_rejecting_card_def)
  define spi2 where "spi2 = spi1\<lparr>pos := 120, cs := 0,
      sent := sent spi1 @ 0xFF # replicate 16 0xFF @ [0xFF, 0xFF, 0xFF]\<rparr>"
  have tok: "card spi1 (pos spi1) = 0xFE"
    by (simp add: s1 cmd16_rejecting_card_def)
  have rd: "sd_read spi1 16 = Some (0, small_csd, spi2)"
    using sd_read_first [OF tok, of 16]
    by (simp add: s1 cmd16_rejecting_card_csd spi2_def)
  have ss: "sd_sectors ?d2 = Some (Inr (8, ?d2\<lparr>hw := spi2, cdv := 512\<rparr>))"
    using sd_sectors_eq [OF c9 rd] by (simp add: small_csd_values)
  have s2: "card spi2 (pos spi2 + 6) = 0x04"
    by (simp add: spi2_def s1 cmd16_rejecting_card_def v1_card_def)
  have c16: "fst (cmd spi2 16 arg) = 4" for arg
    by (simp add: cmd_first s2)
  show ?thesis
    by (simp add: disk_initialize_def i Let_def ss SDCARD_V1_def [symmetric] split_beta c16 h)
       (simp add: SDCARD_V1_def)
qed

lemma booted_cmd16_rejecting_card:
  "post_init (power_on cmd16_rejecting_card n) 1 = Some (Inr (booted cmd16_rejecting_card n))
   \<and> result (disk_initialize (power_on cmd16_rejecting_card n) True) = Some (Inr 1)
   \<and> init_ok (booted cmd16_rejecting_card n) \<and> is_initialized (booted cmd16_rejecting_card n) = 1"
proof -
  from cmd16_rejecting_card_init [of n] obtain d
    where "disk_initialize (power_on cmd16_rejecting_card n) True = Some (Inr (1, d))"
      and "hal_ptr d" and "is_initialized d = 1"
    by blast
  then show ?thesis
    by (simp add: booted_def post_init_def result_def)
qed

text \<open>
  Claim C1 has a failed initialisation leave the session uninitialised and every
  later request rejected as not initialised, with no device access.
  \<^verbatim>\<open>post_init\<close> drops the result of \<^verbatim>\<open>disk_initialize\<close> and tests
  \<^verbatim>\<open>ctx.spi_sd_ctx.hal\<close>, which \<^verbatim>\<open>initialise_card\<close> has set before the first
  transfer, so \<^verbatim>\<open>init_ok\<close> is set whatever the card did. On a card that rejects
  every command, \<^verbatim>\<open>disk_initialize\<close> returns 1; an empty write then returns
  \<^verbatim>\<open>OS_SUCCESS\<close> after seven more bus transfers (64 to 71), a one-byte read returns
  \<^verbatim>\<open>OS_ERROR_OUT_OF_BOUNDS\<close>, and the state query returns \<^verbatim>\<open>OS_SUCCESS\<close>. On a
  card that rejects \<^verbatim>\<open>CMD16\<close> only, \<^verbatim>\<open>disk_initialize\<close> returns 1 as well, but
  \<^verbatim>\<open>_is_initialized\<close> stays 1 and the state query reports a ready medium.
\<close>

theorem failed_initialisation_not_latched:
  "result (disk_initialize (power_on rejecting_card 8) True) = Some (Inr 1)
   \<and> post_init (power_on rejecting_card 8) 1 = Some (Inr (booted rejecting_card 8))
   \<and> pos (hw (booted rejecting_card 8)) = 64
   \<and> reply (storage_rpc_write (booted rejecting_card 8) 0 0) = Some (Inr (OS_SUCCESS, 0))
   \<and> transfers (storage_rpc_write (booted rejecting_card 8) 0 0) = Some 71
   \<and> reply (storage_rpc_read (booted rejecting_card 8) 0 1) = Some (Inr (OS_ERROR_OUT_OF_BOUNDS, 0))
   \<and> storage_rpc_getState (booted rejecting_card 8) = (OS_SUCCESS, Some 1)
   \<and> result (disk_initialize (power_on cmd16_rejecting_card 8) True) = Some (Inr 1)
   \<and> post_init (power_on cmd16_rejecting_card 8) 1 = Some (Inr (booted cmd16_rejecting_card 8))
   \<and> is_initialized (booted cmd16_rejecting_card 8) = 1
   \<and> storage_rpc_getState (booted cmd16_rejecting_card 8) = (OS_SUCCESS, Some 0)"
proof -
  have a: "pos (hw (booted rejecting_card 8)) = 64"
    "storage_rpc_getState (booted rejecting_card 8) = (OS_SUCCESS, Some 1)"
    by (simp_all add: booted_rejecting_card storage_rpc_getState_def disk_status_def
        power_on_def)
  have c: "post_init (power_on rejecting_card 8) 1 = Some (Inr (booted rejecting_card 8))"
    by (simp add: booted_rejecting_card rejecting_card_boot)
  have b: "storage_rpc_getState (booted cmd16_rejecting_card 8) = (OS_SUCCESS, Some 0)"
    by (simp add: storage_rpc_getState_def disk_status_def booted_cmd16_rejecting_card)
  from a b c rejecting_card_init [of 8] booted_rejecting_write booted_rejecting_read
    booted_cmd16_rejecting_card [of 8]
  show ?thesis
    by simp
qed

end
